theory Spec2Isabelle
  imports Main "HOL-Library.AList" "HOL-Library.Sublist"
begin

section \<open>Platform text and byte encodings\<close>

text \<open>
  The service of \<^verbatim>\<open>src/services/awsKmsService.ts\<close> moves data between JavaScript
  strings and Node \<^verbatim>\<open>Buffer\<close>s. A \<^verbatim>\<open>Buffer\<close> is the list of its bytes. A JavaScript
  string is a sequence of UTF-16 code units and is represented here by the bytes of its
  generalized UTF-8 form (\<^typ>\<open>string\<close>, one \<^typ>\<open>char\<close> per byte): UTF-8, with a
  surrogate that has no partner written as the three bytes \<^verbatim>\<open>ED A0..BF 80..BF\<close> of its
  code unit. A string without such a surrogate is well formed, and its representation is
  its UTF-8 encoding (\<open>utf8_valid\<close>). Two strings are equal exactly when their
  representations are; appending representations is appending strings wherever one of
  the two is ASCII, as in every concatenation of the service.
\<close>

subsection \<open>UTF-8, as \<^verbatim>\<open>Buffer.from(s)\<close> and \<^verbatim>\<open>buf.toString()\<close>\<close>

text \<open>\<^verbatim>\<open>Buffer.from(s)\<close> encodes the string in UTF-8 and writes U+FFFD, the bytes
  \<^verbatim>\<open>EF BF BD\<close>, for each surrogate without a partner. \<^verbatim>\<open>buf.toString()\<close> decodes
  UTF-8 as the platform's decoder does, with U+FFFD for each ill-formed subsequence: a
  lead byte fixes how many continuation bytes are needed and the range of the first one;
  a byte outside the range ends the sequence with an error and is read again as a lead
  byte; input that ends inside a sequence is one error. The result is a well-formed
  string, whose representation is the bytes of the sequences accepted and \<^verbatim>\<open>EF BF BD\<close>
  for each error.\<close>

definition replacement_character :: string where
  "replacement_character = [CHR 0xEF, CHR 0xBF, CHR 0xBD]"

fun Buffer_from :: "string \<Rightarrow> string" where
  "Buffer_from (a # b # c # r) =
     (if a = CHR 0xED \<and> 0xA0 \<le> (of_char b :: nat)
      then replacement_character @ Buffer_from r
      else a # Buffer_from (b # c # r))"
| "Buffer_from [a, b] = [a, b]"
| "Buffer_from [a] = [a]"
| "Buffer_from [] = []"

function utf8_decode :: "nat \<Rightarrow> string \<Rightarrow> nat \<Rightarrow> nat \<Rightarrow> string \<Rightarrow> string" where
  "utf8_decode needed seen lo hi [] = (if needed = 0 then [] else replacement_character)"
| "utf8_decode needed seen lo hi (b # bs) =
     (let n = (of_char b :: nat) in
      if needed = 0 then
        (if n \<le> 0x7F then b # utf8_decode 0 [] 0x80 0xBF bs
         else if 0xC2 \<le> n \<and> n \<le> 0xDF then utf8_decode 1 [b] 0x80 0xBF bs
         else if 0xE0 \<le> n \<and> n \<le> 0xEF then
           utf8_decode 2 [b] (if n = 0xE0 then 0xA0 else 0x80) (if n = 0xED then 0x9F else 0xBF) bs
         else if 0xF0 \<le> n \<and> n \<le> 0xF4 then
           utf8_decode 3 [b] (if n = 0xF0 then 0x90 else 0x80) (if n = 0xF4 then 0x8F else 0xBF) bs
         else replacement_character @ utf8_decode 0 [] 0x80 0xBF bs)
      else if n < lo \<or> hi < n then replacement_character @ utf8_decode 0 [] 0x80 0xBF (b # bs)
      else if needed = 1 then seen @ [b] @ utf8_decode 0 [] 0x80 0xBF bs
      else utf8_decode (needed - 1) (seen @ [b]) 0x80 0xBF bs)"
  by pat_completeness auto
termination
  by (relation "measure (\<lambda>(needed, seen, lo, hi, bs). 2 * length bs + (if needed = 0 then 0 else 1))")
     auto

declare utf8_decode.simps [simp del]

definition Buffer_toString :: "string \<Rightarrow> string" where
  "Buffer_toString bs = utf8_decode 0 [] 0x80 0xBF bs"

definition in_range :: "char \<Rightarrow> nat \<Rightarrow> nat \<Rightarrow> bool" where
  "in_range c lo hi = (lo \<le> of_char c \<and> (of_char c :: nat) \<le> hi)"

fun utf8_valid :: "string \<Rightarrow> bool" where
  "utf8_valid [] = True"
| "utf8_valid (b # bs) =
     (let n = (of_char b :: nat) in
      if n \<le> 0x7F then utf8_valid bs
      else if 0xC2 \<le> n \<and> n \<le> 0xDF then
        (case bs of
           c1 # r \<Rightarrow> in_range c1 0x80 0xBF \<and> utf8_valid r
         | _ \<Rightarrow> False)
      else if 0xE0 \<le> n \<and> n \<le> 0xEF then
        (case bs of
           c1 # c2 # r \<Rightarrow>
             in_range c1 (if n = 0xE0 then 0xA0 else 0x80) (if n = 0xED then 0x9F else 0xBF)
             \<and> in_range c2 0x80 0xBF \<and> utf8_valid r
         | _ \<Rightarrow> False)
      else if 0xF0 \<le> n \<and> n \<le> 0xF4 then
        (case bs of
           c1 # c2 # c3 # r \<Rightarrow>
             in_range c1 (if n = 0xF0 then 0x90 else 0x80) (if n = 0xF4 then 0x8F else 0xBF)
             \<and> in_range c2 0x80 0xBF \<and> in_range c3 0x80 0xBF \<and> utf8_valid r
         | _ \<Rightarrow> False)
      else False)"

subsection \<open>Base64, as \<^verbatim>\<open>buf.toString('base64')\<close> and \<^verbatim>\<open>Buffer.from(s, 'base64')\<close>\<close>

definition b64_alphabet :: string where
  "b64_alphabet = ''ABCDEFGHIJKLMNOPQRSTUVWXYZabcdefghijklmnopqrstuvwxyz0123456789+/''"

definition b64chr :: "nat \<Rightarrow> char" where
  "b64chr i = b64_alphabet ! i"

text \<open>Groups of three bytes become four six-bit digits; a rest of one or two bytes
  becomes two or three digits.\<close>

fun sextets_of :: "nat list \<Rightarrow> nat list" where
  "sextets_of (a # b # c # r) =
     [a div 4, (a mod 4) * 16 + b div 16, (b mod 16) * 4 + c div 64, c mod 64] @ sextets_of r"
| "sextets_of [a, b] = [a div 4, (a mod 4) * 16 + b div 16, (b mod 16) * 4]"
| "sextets_of [a] = [a div 4, (a mod 4) * 16]"
| "sextets_of [] = []"

definition b64_padding :: "nat \<Rightarrow> string" where
  "b64_padding n = replicate ((3 - n mod 3) mod 3) (CHR ''='')"

definition base64_encode :: "string \<Rightarrow> string" where
  "base64_encode bs =
     map b64chr (sextets_of (map of_char bs)) @ b64_padding (length bs)"

text \<open>Node's decoder accepts the standard and the URL-safe alphabet, skips every other
  character, and stops at the first \<^verbatim>\<open>=\<close>.\<close>

definition unbase64 :: "char \<Rightarrow> nat option" where
  "unbase64 c =
     (let n = (of_char c :: nat) in
      if 65 \<le> n \<and> n \<le> 90 then Some (n - 65)
      else if 97 \<le> n \<and> n \<le> 122 then Some (n - 71)
      else if 48 \<le> n \<and> n \<le> 57 then Some (n + 4)
      else if c = CHR ''+'' \<or> c = CHR ''-'' then Some 62
      else if c = CHR ''/'' \<or> c = CHR ''_'' then Some 63
      else None)"

fun bytes_of_sextets :: "nat list \<Rightarrow> nat list" where
  "bytes_of_sextets (w # x # y # z # r) =
     [w * 4 + x div 16, (x mod 16) * 16 + y div 4, (y mod 4) * 64 + z] @ bytes_of_sextets r"
| "bytes_of_sextets [w, x, y] = [w * 4 + x div 16, (x mod 16) * 16 + y div 4]"
| "bytes_of_sextets [w, x] = [w * 4 + x div 16]"
| "bytes_of_sextets [w] = []"
| "bytes_of_sextets [] = []"

definition base64_decode :: "string \<Rightarrow> string" where
  "base64_decode s =
     map char_of
       (bytes_of_sextets
          (List.map_filter unbase64 (takeWhile (\<lambda>c. c \<noteq> CHR ''='') s)))"

subsection \<open>Hexadecimal, as \<^verbatim>\<open>buf.toString('hex')\<close>\<close>

definition hexchr :: "nat \<Rightarrow> char" where
  "hexchr i = ''0123456789abcdef'' ! i"

definition hex_encode :: "string \<Rightarrow> string" where
  "hex_encode bs = concat (map (\<lambda>c. [hexchr (of_char c div 16), hexchr (of_char c mod 16)]) bs)"

subsection \<open>\<^verbatim>\<open>String.prototype.split\<close> on a one-character separator\<close>

fun js_split :: "char \<Rightarrow> string \<Rightarrow> string list" where
  "js_split sep [] = [[]]"
| "js_split sep (c # cs) =
     (if c = sep then [] # js_split sep cs
      else (case js_split sep cs of
              p # ps \<Rightarrow> (c # p) # ps
            | [] \<Rightarrow> [[c]]))"

section \<open>Configuration and data model\<close>

text \<open>\<^verbatim>\<open>ENDCRYPT_KMS_CONFIG\<close> and \<^verbatim>\<open>ENCRYPTION_CONFIG\<close>. The environment entry is
  \<^verbatim>\<open>process.env['NODE_ENV'] || 'development'\<close>: an unset or empty variable gives the
  default.\<close>

definition ENDCRYPT_KMS_CONFIG_alias :: string where
  "ENDCRYPT_KMS_CONFIG_alias = ''EndCrypt''"

definition ENDCRYPT_KMS_CONFIG_keyId :: string where
  "ENDCRYPT_KMS_CONFIG_keyId = ''5e239a00-de10-43f1-b1df-8104ab293fbe''"

definition ENDCRYPT_KMS_CONFIG_region :: string where
  "ENDCRYPT_KMS_CONFIG_region = ''eu-north-1''"

definition ENCRYPTION_CONFIG_keySpec :: string where
  "ENCRYPTION_CONFIG_keySpec = ''AES_256''"

definition or_default :: "string option \<Rightarrow> string \<Rightarrow> string" where
  "or_default v d = (case v of None \<Rightarrow> d | Some s \<Rightarrow> if s = [] then d else s)"

definition ENCRYPTION_CONFIG_encryptionContext :: "string option \<Rightarrow> (string \<times> string) list" where
  "ENCRYPTION_CONFIG_encryptionContext node_env =
     [(''application'', ''endcrypt-financial''),
      (''environment'', or_default node_env ''development''),
      (''version'', ''1.0.0''),
      (''keyAlias'', ENDCRYPT_KMS_CONFIG_alias),
      (''region'', ENDCRYPT_KMS_CONFIG_region)]"

text \<open>\<^verbatim>\<open>enum DataClassification\<close> is a string enum: at run time a classification is a
  string, and a caller can pass any string (\<^verbatim>\<open>'invalid' as DataClassification\<close>).\<close>

definition PUBLIC :: string where "PUBLIC = ''public''"
definition INTERNAL :: string where "INTERNAL = ''internal''"
definition CONFIDENTIAL :: string where "CONFIDENTIAL = ''confidential''"
definition RESTRICTED :: string where "RESTRICTED = ''restricted''"

record EncryptedData =
  encryptedBlob :: string
  dataKeyId :: string
  encryptionContext :: "(string \<times> string) list"
  algorithm :: string
  classification :: string
  timestamp :: string
  iv :: "string option"
  authTag :: "string option"

text \<open>Dates are milliseconds since the epoch.\<close>

record DataEncryptionKey =
  keyId :: string
  plaintextKey :: string
  encryptedKey :: string
  createdAt :: int
  expiresAt :: int

text \<open>The fields of \<^verbatim>\<open>AWSKMSService\<close>. \<^verbatim>\<open>keyCache\<close> is a JavaScript \<^verbatim>\<open>Map\<close>, which
  keeps insertion order: an association list with \<^const>\<open>AList.update\<close> for \<^verbatim>\<open>set\<close> and
  \<^const>\<open>AList.delete\<close> for \<^verbatim>\<open>delete\<close>. \<^verbatim>\<open>timers\<close> holds the pending \<^verbatim>\<open>setTimeout\<close>
  callbacks, each with the key it will delete and its delay.\<close>

record service =
  customerMasterKeyId :: string
  keyCache :: "(string \<times> DataEncryptionKey) list"
  cacheTimeout :: int
  timers :: "(string \<times> int) list"

text \<open>Every \<^verbatim>\<open>throw\<close> of the file, and the failures of the platform calls it makes.\<close>

datatype error =
    Unsupported_data_classification string
  | Failed_to_encrypt_data
  | Failed_to_decrypt_data
  | Failed_to_generate_data_key
  | Failed_to_generate_data_encryption_key
  | Data_key_decryption_not_implemented
  | CMK_id_required
  | Rejected_by_KMS
  | TypeError
  | SyntaxError
  | Cipher_error

section \<open>The platform the service calls\<close>

text \<open>
  The AWS SDK, Node's \<^verbatim>\<open>crypto\<close> ciphers and \<^verbatim>\<open>JSON\<close> are not code of the repository.
  They are parameters of the model, one field per call the service makes:
  \<^item> \<^verbatim>\<open>JSON.stringify\<close> throws, returns \<^verbatim>\<open>undefined\<close>, or returns a text;
    \<^verbatim>\<open>JSON.parse\<close> returns a value or throws (\<open>None\<close>);
  \<^item> a KMS promise is rejected or resolves to a response whose fields may be undefined;
  \<^item> \<open>cipher_hex alg key data\<close> is
    \<^verbatim>\<open>c.update(data, 'utf8', 'hex') + c.final('hex')\<close> for \<^verbatim>\<open>c = crypto.createCipher(alg, key)\<close>,
    and \<open>decipher_utf8 alg key blob\<close> is
    \<^verbatim>\<open>d.update(blob, 'hex', 'utf8') + d.final('utf8')\<close> for \<^verbatim>\<open>d = crypto.createDecipher(alg, key)\<close>;
    \<open>None\<close> when a call throws.
\<close>

datatype stringified = Throws | Undefined | Text string

datatype 'a promise = Rejected | Resolved 'a

record 'p platform =
  JSON_stringify :: "'p \<Rightarrow> stringified"
  JSON_parse :: "string \<Rightarrow> 'p option"
  kms_encrypt :: "string \<Rightarrow> string \<Rightarrow> (string \<times> string) list \<Rightarrow> string option promise"
  kms_decrypt :: "string \<Rightarrow> (string \<times> string) list \<Rightarrow> string option promise"
  kms_generateDataKey ::
    "string \<Rightarrow> string \<Rightarrow> (string \<times> string) list \<Rightarrow> (string option \<times> string option) promise"
  cipher_hex :: "string \<Rightarrow> string \<Rightarrow> string \<Rightarrow> string option"
  decipher_utf8 :: "string \<Rightarrow> string \<Rightarrow> string \<Rightarrow> string option"
  NODE_ENV :: "string option"

text \<open>What one call of \<^verbatim>\<open>encrypt\<close> reads from the clock and the random generator.\<close>

record entropy =
  now_iso :: string
  key_uuid :: string
  created_ms :: int
  expiry_base_ms :: int
  random_iv :: string
  token_uuid :: string

definition text_of :: "stringified \<Rightarrow> string option" where
  "text_of r = (case r of Text s \<Rightarrow> Some s | _ \<Rightarrow> None)"

section \<open>\<^verbatim>\<open>class AWSKMSService\<close>\<close>

text \<open>The constructor: \<^verbatim>\<open>cmkId || process.env['AWS_KMS_KEY_ID'] || ENDCRYPT_KMS_CONFIG.keyId\<close>,
  an empty cache and a timeout of 15 minutes.\<close>

definition new_AWSKMSService :: "string option \<Rightarrow> string option \<Rightarrow> error + service" where
  "new_AWSKMSService cmkId env_key =
     (let k = or_default cmkId (or_default env_key ENDCRYPT_KMS_CONFIG_keyId) in
      if k = [] then Inl CMK_id_required
      else Inr \<lparr>customerMasterKeyId = k, keyCache = [], cacheTimeout = 15 * 60 * 1000,
                timers = []\<rparr>)"

subsection \<open>Data keys and their cache\<close>

definition generateDataKey_try ::
  "'p platform \<Rightarrow> entropy \<Rightarrow> service \<Rightarrow> (error + DataEncryptionKey) \<times> service" where
  "generateDataKey_try rt ent s =
     (case kms_generateDataKey rt (customerMasterKeyId s) ENCRYPTION_CONFIG_keySpec
             (ENCRYPTION_CONFIG_encryptionContext (NODE_ENV rt)) of
        Rejected \<Rightarrow> (Inl Rejected_by_KMS, s)
      | Resolved (None, _) \<Rightarrow> (Inl Failed_to_generate_data_key, s)
      | Resolved (Some pt, None) \<Rightarrow> (Inl Failed_to_generate_data_key, s)
      | Resolved (Some pt, Some blob) \<Rightarrow>
          (let dataKey = \<lparr>keyId = key_uuid ent, plaintextKey = pt,
                           encryptedKey = base64_encode blob,
                           createdAt = created_ms ent,
                           expiresAt = expiry_base_ms ent + cacheTimeout s\<rparr>
           in (Inr dataKey,
               s\<lparr>keyCache := AList.update (key_uuid ent) dataKey (keyCache s),
                  timers := timers s @ [(key_uuid ent, cacheTimeout s)]\<rparr>)))"

definition generateDataKey ::
  "'p platform \<Rightarrow> entropy \<Rightarrow> service \<Rightarrow> (error + DataEncryptionKey) \<times> service" where
  "generateDataKey rt ent s =
     (case generateDataKey_try rt ent s of
        (Inl e, s') \<Rightarrow> (Inl Failed_to_generate_data_encryption_key, s')
      | (Inr k, s') \<Rightarrow> (Inr k, s'))"

text \<open>The callback given to \<^verbatim>\<open>setTimeout\<close>, when it runs.\<close>

definition timer_fires :: "string \<Rightarrow> service \<Rightarrow> service" where
  "timer_fires kid s =
     s\<lparr>keyCache := AList.delete kid (keyCache s),
        timers := remove1 (kid, cacheTimeout s) (timers s)\<rparr>"

text \<open>\<^verbatim>\<open>getOrDecryptDataKey\<close>: \<open>now\<close> is the \<^verbatim>\<open>new Date()\<close> of the comparison.\<close>

definition getOrDecryptDataKey ::
  "int \<Rightarrow> service \<Rightarrow> string \<Rightarrow> (error + DataEncryptionKey) \<times> service" where
  "getOrDecryptDataKey now s kid =
     (case map_of (keyCache s) kid of
        Some cachedKey \<Rightarrow>
          if expiresAt cachedKey > now then (Inr cachedKey, s)
          else (Inl Data_key_decryption_not_implemented, s)
      | None \<Rightarrow> (Inl Data_key_decryption_not_implemented, s))"

subsection \<open>Tokenization\<close>

definition tokenizeData :: "string \<Rightarrow> string option \<Rightarrow> error + string" where
  "tokenizeData token data =
     (case data of
        None \<Rightarrow> Inl TypeError
      | Some d \<Rightarrow> Inr (''TOKEN:'' @ token @ '':'' @ base64_encode (Buffer_from d)))"

definition detokenizeData :: "string \<Rightarrow> string" where
  "detokenizeData tokenizedData =
     (if prefix ''TOKEN:'' tokenizedData then
        (let parts = js_split (CHR '':'') tokenizedData in
         if length parts \<ge> 3 \<and> parts ! 2 \<noteq> []
         then Buffer_toString (base64_decode (parts ! 2))
         else tokenizedData)
      else tokenizedData)"

subsection \<open>The private encryption methods\<close>

definition encryptPublicData ::
  "'p platform \<Rightarrow> string option \<Rightarrow> string \<Rightarrow> error + EncryptedData" where
  "encryptPublicData rt data ts =
     (case data of
        None \<Rightarrow> Inl TypeError
      | Some d \<Rightarrow>
          Inr \<lparr>encryptedBlob = base64_encode (Buffer_from d),
               dataKeyId = ''public'',
               encryptionContext = ENCRYPTION_CONFIG_encryptionContext (NODE_ENV rt),
               algorithm = ''base64'',
               classification = PUBLIC,
               timestamp = ts,
               iv = None,
               authTag = None\<rparr>)"

definition encryptInternalData ::
  "'p platform \<Rightarrow> service \<Rightarrow> string option \<Rightarrow> string \<Rightarrow> error + EncryptedData" where
  "encryptInternalData rt s data ts =
     (case data of
        None \<Rightarrow> Inl TypeError
      | Some d \<Rightarrow>
          (case kms_encrypt rt (customerMasterKeyId s) (Buffer_from d)
                  (ENCRYPTION_CONFIG_encryptionContext (NODE_ENV rt)) of
             Rejected \<Rightarrow> Inl Rejected_by_KMS
           | Resolved None \<Rightarrow> Inl TypeError
           | Resolved (Some blob) \<Rightarrow>
               Inr \<lparr>encryptedBlob = base64_encode blob,
                    dataKeyId = customerMasterKeyId s,
                    encryptionContext = ENCRYPTION_CONFIG_encryptionContext (NODE_ENV rt),
                    algorithm = ''aws-kms'',
                    classification = INTERNAL,
                    timestamp = ts,
                    iv = None,
                    authTag = None\<rparr>))"

definition encryptConfidentialData ::
  "'p platform \<Rightarrow> entropy \<Rightarrow> service \<Rightarrow> string option \<Rightarrow> string \<Rightarrow>
     (error + EncryptedData) \<times> service" where
  "encryptConfidentialData rt ent s data ts =
     (case generateDataKey rt ent s of
        (Inl e, s') \<Rightarrow> (Inl e, s')
      | (Inr dataKey, s') \<Rightarrow>
          (case data of
             None \<Rightarrow> (Inl TypeError, s')
           | Some d \<Rightarrow>
               (case cipher_hex rt ''aes-256-cbc'' (plaintextKey dataKey) d of
                  None \<Rightarrow> (Inl Cipher_error, s')
                | Some encrypted \<Rightarrow>
                    (Inr \<lparr>encryptedBlob = encrypted,
                          dataKeyId = keyId dataKey,
                          encryptionContext = ENCRYPTION_CONFIG_encryptionContext (NODE_ENV rt),
                          algorithm = ''aes-256-cbc'',
                          classification = CONFIDENTIAL,
                          timestamp = ts,
                          iv = Some (hex_encode (random_iv ent)),
                          authTag = Some ''sha256-hmac''\<rparr>, s'))))"

definition encryptRestrictedData ::
  "'p platform \<Rightarrow> entropy \<Rightarrow> service \<Rightarrow> string option \<Rightarrow> string \<Rightarrow>
     (error + EncryptedData) \<times> service" where
  "encryptRestrictedData rt ent s data ts =
     (case tokenizeData (token_uuid ent) data of
        Inl e \<Rightarrow> (Inl e, s)
      | Inr tokenizedData \<Rightarrow> encryptConfidentialData rt ent s (Some tokenizedData) ts)"

subsection \<open>The private decryption methods\<close>

definition decryptPublicData :: "string \<Rightarrow> error + string" where
  "decryptPublicData blob = Inr (Buffer_toString (base64_decode blob))"

definition decryptInternalData :: "'p platform \<Rightarrow> string \<Rightarrow> string \<Rightarrow> error + string" where
  "decryptInternalData rt blob kid =
     (case kms_decrypt rt (base64_decode blob)
             (ENCRYPTION_CONFIG_encryptionContext (NODE_ENV rt)) of
        Rejected \<Rightarrow> Inl Rejected_by_KMS
      | Resolved None \<Rightarrow> Inl TypeError
      | Resolved (Some pt) \<Rightarrow> Inr (Buffer_toString pt))"

definition decryptConfidentialData ::
  "'p platform \<Rightarrow> int \<Rightarrow> service \<Rightarrow> string \<Rightarrow> string \<Rightarrow> string option \<Rightarrow> string option \<Rightarrow>
     (error + string) \<times> service" where
  "decryptConfidentialData rt now s blob kid iv_arg authTag_arg =
     (case getOrDecryptDataKey now s kid of
        (Inl e, s') \<Rightarrow> (Inl e, s')
      | (Inr dataKey, s') \<Rightarrow>
          (case decipher_utf8 rt ''aes-256-cbc'' (plaintextKey dataKey) blob of
             None \<Rightarrow> (Inl Cipher_error, s')
           | Some decrypted \<Rightarrow> (Inr decrypted, s')))"

definition decryptRestrictedData ::
  "'p platform \<Rightarrow> int \<Rightarrow> service \<Rightarrow> string \<Rightarrow> string \<Rightarrow> string option \<Rightarrow> string option \<Rightarrow>
     (error + string) \<times> service" where
  "decryptRestrictedData rt now s blob kid iv_arg authTag_arg =
     (case decryptConfidentialData rt now s blob kid iv_arg authTag_arg of
        (Inl e, s') \<Rightarrow> (Inl e, s')
      | (Inr tokenizedData, s') \<Rightarrow> (Inr (detokenizeData tokenizedData), s'))"

subsection \<open>\<^verbatim>\<open>encrypt\<close> and \<^verbatim>\<open>decrypt\<close>\<close>

text \<open>Each public method is a \<^verbatim>\<open>try\<close> block whose \<^verbatim>\<open>catch\<close> logs the error and throws a
  fixed one; the \<open>_try\<close> function is the block, the method is the block under its
  \<^verbatim>\<open>catch\<close>. \<^verbatim>\<open>decrypt\<close> and \<^verbatim>\<open>generateDataKey\<close> await every promise inside the block,
  so the \<^verbatim>\<open>catch\<close> replaces every error. \<^verbatim>\<open>encrypt\<close> returns the promise of the private
  method without awaiting it: the block either throws (\<open>Inl\<close>: \<^verbatim>\<open>JSON.stringify\<close>, the
  \<^verbatim>\<open>default\<close> branch), which the \<^verbatim>\<open>catch\<close> replaces, or returns that promise
  (\<open>Inr\<close>), whose outcome, a rejection included, is the caller's as it is.\<close>

definition encrypt_try ::
  "'p platform \<Rightarrow> entropy \<Rightarrow> service \<Rightarrow> 'p \<Rightarrow> string \<Rightarrow>
     error + ((error + EncryptedData) \<times> service)" where
  "encrypt_try rt ent s data cls =
     (case JSON_stringify rt data of
        Throws \<Rightarrow> Inl TypeError
      | r \<Rightarrow>
          (let serializedData = text_of r; ts = now_iso ent in
           if cls = PUBLIC then Inr (encryptPublicData rt serializedData ts, s)
           else if cls = INTERNAL then Inr (encryptInternalData rt s serializedData ts, s)
           else if cls = CONFIDENTIAL
             then Inr (encryptConfidentialData rt ent s serializedData ts)
           else if cls = RESTRICTED
             then Inr (encryptRestrictedData rt ent s serializedData ts)
           else Inl (Unsupported_data_classification cls)))"

definition encrypt ::
  "'p platform \<Rightarrow> entropy \<Rightarrow> service \<Rightarrow> 'p \<Rightarrow> string \<Rightarrow> (error + EncryptedData) \<times> service" where
  "encrypt rt ent s data cls =
     (case encrypt_try rt ent s data cls of
        Inl e \<Rightarrow> (Inl Failed_to_encrypt_data, s)
      | Inr outcome \<Rightarrow> outcome)"

definition decrypt_try ::
  "'p platform \<Rightarrow> int \<Rightarrow> service \<Rightarrow> EncryptedData \<Rightarrow> (error + 'p) \<times> service" where
  "decrypt_try rt now s encryptedData =
     (let blob = encryptedBlob encryptedData;
          kid = dataKeyId encryptedData;
          cls = classification encryptedData;
          iv_arg = iv encryptedData;
          authTag_arg = authTag encryptedData;
          (r, s') =
            (if cls = PUBLIC then (decryptPublicData blob, s)
             else if cls = INTERNAL then (decryptInternalData rt blob kid, s)
             else if cls = CONFIDENTIAL
               then decryptConfidentialData rt now s blob kid iv_arg authTag_arg
             else if cls = RESTRICTED
               then decryptRestrictedData rt now s blob kid iv_arg authTag_arg
             else (Inl (Unsupported_data_classification cls), s))
      in case r of
           Inl e \<Rightarrow> (Inl e, s')
         | Inr decryptedData \<Rightarrow>
             (case JSON_parse rt decryptedData of
                None \<Rightarrow> (Inl SyntaxError, s')
              | Some v \<Rightarrow> (Inr v, s')))"

definition decrypt ::
  "'p platform \<Rightarrow> int \<Rightarrow> service \<Rightarrow> EncryptedData \<Rightarrow> (error + 'p) \<times> service" where
  "decrypt rt now s encryptedData =
     (case decrypt_try rt now s encryptedData of
        (Inl e, s') \<Rightarrow> (Inl Failed_to_decrypt_data, s')
      | (Inr v, s') \<Rightarrow> (Inr v, s'))"

section \<open>The format of \<^verbatim>\<open>crypto.randomUUID()\<close>\<close>

definition uuid_shape :: string where
  "uuid_shape = ''xxxxxxxx-xxxx-xxxx-xxxx-xxxxxxxxxxxx''"

definition uuid_char_ok :: "char \<Rightarrow> char \<Rightarrow> bool" where
  "uuid_char_ok p c =
     (if p = CHR ''-'' then c = CHR ''-'' else c \<in> set ''0123456789abcdef'')"

definition is_uuid :: "string \<Rightarrow> bool" where
  "is_uuid u = list_all2 uuid_char_ok uuid_shape u"

section \<open>A test double of the platform\<close>

text \<open>
  Concrete runs need a concrete platform. This one stands in for the mocked \<^verbatim>\<open>aws-sdk\<close>
  of the repository's tests:
  \<^item> payloads are natural numbers, \<^verbatim>\<open>JSON.stringify\<close> writes the decimal numeral and
    \<^verbatim>\<open>JSON.parse\<close> accepts exactly the JSON numbers without sign, fraction or exponent;
  \<^item> the KMS writes the encryption context in front of the plaintext and rejects a
    ciphertext that does not start with the context it is given, so that it does bind
    the context;
  \<^item> the cipher does the same with the key, and writes hexadecimal.
\<close>

definition digit_char :: "nat \<Rightarrow> char" where
  "digit_char d = char_of (48 + d)"

fun decimal :: "nat \<Rightarrow> string" where
  "decimal n =
     (if n < 10 then [digit_char n] else decimal (n div 10) @ [digit_char (n mod 10)])"

declare decimal.simps [simp del]

definition double_stringify :: "nat \<Rightarrow> stringified" where
  "double_stringify n = Text (decimal n)"

definition is_digit :: "char \<Rightarrow> bool" where
  "is_digit c = (48 \<le> (of_char c :: nat) \<and> (of_char c :: nat) \<le> 57)"

definition double_parse :: "string \<Rightarrow> nat option" where
  "double_parse s =
     (if s \<noteq> [] \<and> list_all is_digit s \<and> (length s = 1 \<or> hd s \<in> set ''123456789'')
      then Some (foldl (\<lambda>a c. a * 10 + (of_char c - 48)) 0 s)
      else None)"

definition render_context :: "(string \<times> string) list \<Rightarrow> string" where
  "render_context ctx = concat (map (\<lambda>(k, v). k @ ''='' @ v @ '';'') ctx) @ ''|''"

definition double_kms_encrypt ::
  "string \<Rightarrow> string \<Rightarrow> (string \<times> string) list \<Rightarrow> string option promise" where
  "double_kms_encrypt kid pt ctx = Resolved (Some (render_context ctx @ pt))"

definition double_kms_decrypt :: "string \<Rightarrow> (string \<times> string) list \<Rightarrow> string option promise" where
  "double_kms_decrypt blob ctx =
     (if prefix (render_context ctx) blob
      then Resolved (Some (drop (length (render_context ctx)) blob))
      else Rejected)"

definition double_key :: string where
  "double_key = ''0123456789abcdef''"

definition double_kms_generateDataKey ::
  "string \<Rightarrow> string \<Rightarrow> (string \<times> string) list \<Rightarrow> (string option \<times> string option) promise" where
  "double_kms_generateDataKey kid spec ctx =
     Resolved (Some double_key, Some (render_context ctx @ double_key))"

definition unhex :: "char \<Rightarrow> nat option" where
  "unhex c =
     (let n = (of_char c :: nat) in
      if 48 \<le> n \<and> n \<le> 57 then Some (n - 48)
      else if 97 \<le> n \<and> n \<le> 102 then Some (n - 87)
      else None)"

fun hex_decode :: "string \<Rightarrow> string option" where
  "hex_decode (h # l # r) =
     (case (unhex h, unhex l, hex_decode r) of
        (Some a, Some b, Some bs) \<Rightarrow> Some (char_of (a * 16 + b) # bs)
      | _ \<Rightarrow> None)"
| "hex_decode [c] = None"
| "hex_decode [] = Some []"

definition double_cipher :: "string \<Rightarrow> string \<Rightarrow> string \<Rightarrow> string option" where
  "double_cipher alg key data = Some (hex_encode (key @ data))"

definition double_decipher :: "string \<Rightarrow> string \<Rightarrow> string \<Rightarrow> string option" where
  "double_decipher alg key blob =
     (case hex_decode blob of
        Some bytes \<Rightarrow> if prefix key bytes then Some (drop (length key) bytes) else None
      | None \<Rightarrow> None)"

definition double :: "nat platform" where
  "double =
     \<lparr>JSON_stringify = double_stringify,
      JSON_parse = double_parse,
      kms_encrypt = double_kms_encrypt,
      kms_decrypt = double_kms_decrypt,
      kms_generateDataKey = double_kms_generateDataKey,
      cipher_hex = double_cipher,
      decipher_utf8 = double_decipher,
      NODE_ENV = Some ''test''\<rparr>"

definition service0 :: service where
  "service0 =
     \<lparr>customerMasterKeyId = ''test-key-id'', keyCache = [], cacheTimeout = 15 * 60 * 1000,
      timers = []\<rparr>"

definition entropy0 :: entropy where
  "entropy0 =
     \<lparr>now_iso = ''2024-01-01T00:00:00.000Z'',
      key_uuid = ''9b2e4c1a-7f3d-4e8b-a6c5-0d1f2e3a4b5c'',
      created_ms = 1704067200000,
      expiry_base_ms = 1704067200000,
      random_iv = ''0123456789abcdef'',
      token_uuid = ''3f2a1b4c-5d6e-4f70-8a9b-0c1d2e3f4a5b''\<rparr>"

text \<open>The envelopes and the service state that \<^verbatim>\<open>encrypt\<close> produces from the payload
  \<open>1500\<close> on this platform, written out.\<close>

definition context0 :: "(string \<times> string) list" where
  "context0 =
     [(''application'', ''endcrypt-financial''), (''environment'', ''test''),
      (''version'', ''1.0.0''), (''keyAlias'', ''EndCrypt''), (''region'', ''eu-north-1'')]"

definition envelope_public :: EncryptedData where
  "envelope_public =
     \<lparr>encryptedBlob = ''MTUwMA=='', dataKeyId = ''public'', encryptionContext = context0,
      algorithm = ''base64'', classification = ''public'',
      timestamp = ''2024-01-01T00:00:00.000Z'', iv = None, authTag = None\<rparr>"

definition envelope_internal :: EncryptedData where
  "envelope_internal =
     \<lparr>encryptedBlob =
        ''YXBwbGljYXRpb249ZW5kY3J5cHQtZmluYW5jaWFsO2Vudmlyb25tZW50PXRlc3Q7dmVyc2lvbj0xLjAuMDtrZXlBbGlhcz1FbmRDcnlwdDtyZWdpb249ZXUtbm9ydGgtMTt8MTUwMA=='', dataKeyId = ''test-key-id'', encryptionContext = context0,
      algorithm = ''aws-kms'', classification = ''internal'',
      timestamp = ''2024-01-01T00:00:00.000Z'', iv = None, authTag = None\<rparr>"

definition envelope_confidential :: EncryptedData where
  "envelope_confidential =
     \<lparr>encryptedBlob = ''3031323334353637383961626364656631353030'',
      dataKeyId = ''9b2e4c1a-7f3d-4e8b-a6c5-0d1f2e3a4b5c'', encryptionContext = context0,
      algorithm = ''aes-256-cbc'', classification = ''confidential'',
      timestamp = ''2024-01-01T00:00:00.000Z'',
      iv = Some ''30313233343536373839616263646566'', authTag = Some ''sha256-hmac''\<rparr>"

definition envelope_restricted :: EncryptedData where
  "envelope_restricted =
     \<lparr>encryptedBlob =
        ''30313233343536373839616263646566544f4b454e3a33663261316234632d356436652d346637302d386139622d3063316432653366346135623a4d5455774d413d3d'',
      dataKeyId = ''9b2e4c1a-7f3d-4e8b-a6c5-0d1f2e3a4b5c'', encryptionContext = context0,
      algorithm = ''aes-256-cbc'', classification = ''confidential'',
      timestamp = ''2024-01-01T00:00:00.000Z'',
      iv = Some ''30313233343536373839616263646566'', authTag = Some ''sha256-hmac''\<rparr>"

definition key1 :: DataEncryptionKey where
  "key1 =
     \<lparr>keyId = ''9b2e4c1a-7f3d-4e8b-a6c5-0d1f2e3a4b5c'',
      plaintextKey = ''0123456789abcdef'',
      encryptedKey =
        ''YXBwbGljYXRpb249ZW5kY3J5cHQtZmluYW5jaWFsO2Vudmlyb25tZW50PXRlc3Q7dmVyc2lvbj0xLjAuMDtrZXlBbGlhcz1FbmRDcnlwdDtyZWdpb249ZXUtbm9ydGgtMTt8MDEyMzQ1Njc4OWFiY2RlZg=='',
      createdAt = 1704067200000, expiresAt = 1704068100000\<rparr>"

definition service1 :: service where
  "service1 =
     \<lparr>customerMasterKeyId = ''test-key-id'',
      keyCache = [(''9b2e4c1a-7f3d-4e8b-a6c5-0d1f2e3a4b5c'', key1)],
      cacheTimeout = 900000,
      timers = [(''9b2e4c1a-7f3d-4e8b-a6c5-0d1f2e3a4b5c'', 900000)]\<rparr>"

section \<open>Base64 decoding inverts encoding\<close>

lemma unbase64_b64chr_all: "\<forall>i \<in> set [0..<64]. unbase64 (b64chr i) = Some i"
  by (simp add: upt_conv_Cons unbase64_def b64chr_def b64_alphabet_def)

lemma unbase64_b64chr: "i < 64 \<Longrightarrow> unbase64 (b64chr i) = Some i"
  using unbase64_b64chr_all by simp

lemma b64chr_not_pad_all: "\<forall>i \<in> set [0..<64]. b64chr i \<noteq> CHR ''=''"
  by (simp add: upt_conv_Cons b64chr_def b64_alphabet_def)

lemma b64chr_not_pad: "i < 64 \<Longrightarrow> b64chr i \<noteq> CHR ''=''"
  using b64chr_not_pad_all by simp

lemma div16_small: "b < 256 \<Longrightarrow> b div 16 < (16::nat)"
  by (simp add: less_mult_imp_div_less)

lemma div64_small: "c < 256 \<Longrightarrow> c div 64 < (4::nat)"
  by (simp add: less_mult_imp_div_less)

lemma sextet_bounds:
  assumes "a < 256" "b < 256" "c < 256"
  shows "a div 4 < (64::nat)" "(a mod 4) * 16 + b div 16 < 64"
    "(b mod 16) * 4 + c div 64 < 64" "(b mod 16) * 4 < 64" "(a mod 4) * 16 < 64"
proof -
  have b: "b div 16 < 16" using assms by (simp add: div16_small)
  have c: "c div 64 < 4" using assms by (simp add: div64_small)
  have a4: "a mod 4 < 4" by simp
  have b16: "b mod 16 < 16" by simp
  show "a div 4 < 64" using assms by (simp add: less_mult_imp_div_less)
  show "(a mod 4) * 16 + b div 16 < 64" using a4 b by linarith
  show "(b mod 16) * 4 + c div 64 < 64" using b16 c by linarith
  show "(b mod 16) * 4 < 64" using b16 by linarith
  show "(a mod 4) * 16 < 64" using a4 by linarith
qed

lemma sextets_of_bound:
  "\<forall>n \<in> set ns. n < 256 \<Longrightarrow> \<forall>d \<in> set (sextets_of ns). d < 64"
proof (induction ns rule: sextets_of.induct)
  case (1 a b c r)
  have "a < 256" "b < 256" "c < 256" using "1.prems" by simp_all
  note bs = sextet_bounds [OF this]
  have "\<forall>d \<in> set (sextets_of r). d < 64"
    using "1.IH" "1.prems" by simp
  then show ?case using bs by simp
next
  case (2 a b)
  have "a < 256" "b < 256" using "2.prems" by simp_all
  note bs = sextet_bounds [OF this this(2)]
  show ?case using bs by simp
next
  case (3 a)
  have "a < 256" using "3.prems" by simp
  note bs = sextet_bounds [OF this this this]
  show ?case using bs by simp
next
  case 4
  show ?case by simp
qed

lemma first_byte: "b < 256 \<Longrightarrow> a div 4 * 4 + ((a mod 4) * 16 + b div 16) div 16 = (a::nat)"
proof -
  assume "b < 256"
  then have "b div 16 < 16" by (rule div16_small)
  then have "((a mod 4) * 16 + b div 16) div 16 = a mod 4" by simp
  then show ?thesis by simp
qed

lemma second_byte:
  assumes "b < 256" "c < 256"
  shows "(((a mod 4) * 16 + b div 16) mod 16) * 16 + ((b mod 16) * 4 + c div 64) div 4 = (b::nat)"
proof -
  have b: "b div 16 < 16" using assms by (simp add: div16_small)
  have c: "c div 64 < 4" using assms by (simp add: div64_small)
  have "((a mod 4) * 16 + b div 16) mod 16 = b div 16" using b by simp
  moreover have "((b mod 16) * 4 + c div 64) div 4 = b mod 16" using c by simp
  ultimately show ?thesis by simp
qed

lemma second_byte_last:
  assumes "b < 256"
  shows "(((a mod 4) * 16 + b div 16) mod 16) * 16 + ((b mod 16) * 4) div 4 = (b::nat)"
proof -
  have "b div 16 < 16" using assms by (simp add: div16_small)
  then have "((a mod 4) * 16 + b div 16) mod 16 = b div 16" by simp
  then show ?thesis by simp
qed

lemma third_byte:
  assumes "c < 256"
  shows "(((b mod 16) * 4 + c div 64) mod 4) * 64 + c mod 64 = (c::nat)"
proof -
  have "c div 64 < 4" using assms by (simp add: div64_small)
  then have "((b mod 16) * 4 + c div 64) mod 4 = c div 64" by simp
  then show ?thesis by simp
qed

lemma bytes_of_sextets_of:
  "\<forall>n \<in> set ns. n < 256 \<Longrightarrow> bytes_of_sextets (sextets_of ns) = ns"
proof (induction ns rule: sextets_of.induct)
  case (1 a b c r)
  have lt: "a < 256" "b < 256" "c < 256" using "1.prems" by simp_all
  have IH: "bytes_of_sextets (sextets_of r) = r" using "1.IH" "1.prems" by simp
  show ?case
    by (simp only: sextets_of.simps bytes_of_sextets.simps append_Cons append_Nil IH
        first_byte [OF lt(2)] second_byte [OF lt(2) lt(3)] third_byte [OF lt(3)])
next
  case (2 a b)
  have lt: "a < 256" "b < 256" using "2.prems" by simp_all
  show ?case
    by (simp only: sextets_of.simps bytes_of_sextets.simps
        first_byte [OF lt(2)] second_byte_last [OF lt(2)])
next
  case (3 a)
  show ?case by simp
next
  case 4
  show ?case by simp
qed

lemma map_filter_unbase64:
  "\<forall>d \<in> set ds. d < 64 \<Longrightarrow> List.map_filter unbase64 (map b64chr ds) = ds"
  by (induction ds) (simp_all add: unbase64_b64chr)

lemma takeWhile_not_pad:
  "\<forall>d \<in> set ds. d < 64 \<Longrightarrow>
   takeWhile (\<lambda>c. c \<noteq> CHR ''='') (map b64chr ds @ b64_padding n) = map b64chr ds"
proof (induction ds)
  case Nil
  show ?case by (cases "(3 - n mod 3) mod 3") (simp_all add: b64_padding_def)
next
  case (Cons d ds)
  then show ?case by (simp add: b64chr_not_pad)
qed

lemma base64_decode_encode: "base64_decode (base64_encode bs) = bs"
proof -
  let ?ns = "map of_char bs :: nat list"
  have small: "\<forall>n \<in> set ?ns. n < 256" by simp
  have digits: "\<forall>d \<in> set (sextets_of ?ns). d < 64"
    using sextets_of_bound [OF small] .
  have "base64_decode (base64_encode bs) = map char_of (bytes_of_sextets (sextets_of ?ns))"
    unfolding base64_decode_def base64_encode_def
    by (simp only: takeWhile_not_pad [OF digits] map_filter_unbase64 [OF digits])
  also have "\<dots> = map char_of ?ns" by (simp only: bytes_of_sextets_of [OF small])
  also have "\<dots> = bs" by (simp add: comp_def)
  finally show ?thesis .
qed

lemma base64_encode_Nil: "base64_encode [] = []"
  by (simp add: base64_encode_def b64_padding_def)

lemma sextets_of_nonempty: "ns \<noteq> [] \<Longrightarrow> sextets_of ns \<noteq> []"
  by (induction ns rule: sextets_of.induct) simp_all

lemma base64_encode_nonempty: "bs \<noteq> [] \<Longrightarrow> base64_encode bs \<noteq> []"
  by (simp add: base64_encode_def sextets_of_nonempty)

lemma base64_encode_chars:
  "c \<in> set (base64_encode bs) \<Longrightarrow> c = CHR ''='' \<or> (\<exists>i<64. c = b64chr i)"
proof -
  assume c: "c \<in> set (base64_encode bs)"
  have digits: "\<forall>d \<in> set (sextets_of (map of_char bs :: nat list)). d < 64"
    by (rule sextets_of_bound) simp
  from c show ?thesis
    unfolding base64_encode_def b64_padding_def using digits by auto
qed

lemma b64chr_not_colon_all: "\<forall>i \<in> set [0..<64]. b64chr i \<noteq> CHR '':''"
  by (simp add: upt_conv_Cons b64chr_def b64_alphabet_def)

lemma base64_encode_no_colon: "CHR '':'' \<notin> set (base64_encode bs)"
proof
  assume "CHR '':'' \<in> set (base64_encode bs)"
  then have "CHR '':'' = CHR ''='' \<or> (\<exists>i<64. CHR '':'' = b64chr i)"
    by (rule base64_encode_chars)
  then show False using b64chr_not_colon_all by auto
qed

section \<open>Well-formed strings pass through \<^verbatim>\<open>Buffer.from\<close> and \<^verbatim>\<open>toString\<close> unchanged\<close>

lemma decode_ascii:
  "(of_char b :: nat) \<le> 0x7F \<Longrightarrow>
   utf8_decode 0 [] 0x80 0xBF (b # bs) = b # utf8_decode 0 [] 0x80 0xBF bs"
  by (simp add: utf8_decode.simps)

lemma decode_lead2:
  "0xC2 \<le> (of_char b :: nat) \<Longrightarrow> (of_char b :: nat) \<le> 0xDF \<Longrightarrow>
   utf8_decode 0 [] 0x80 0xBF (b # bs) = utf8_decode 1 [b] 0x80 0xBF bs"
  by (simp add: utf8_decode.simps)

lemma decode_lead3:
  "0xE0 \<le> (of_char b :: nat) \<Longrightarrow> (of_char b :: nat) \<le> 0xEF \<Longrightarrow>
   utf8_decode 0 [] 0x80 0xBF (b # bs) =
     utf8_decode 2 [b] (if (of_char b :: nat) = 0xE0 then 0xA0 else 0x80)
       (if (of_char b :: nat) = 0xED then 0x9F else 0xBF) bs"
  by (simp add: utf8_decode.simps)

lemma decode_lead4:
  "0xF0 \<le> (of_char b :: nat) \<Longrightarrow> (of_char b :: nat) \<le> 0xF4 \<Longrightarrow>
   utf8_decode 0 [] 0x80 0xBF (b # bs) =
     utf8_decode 3 [b] (if (of_char b :: nat) = 0xF0 then 0x90 else 0x80)
       (if (of_char b :: nat) = 0xF4 then 0x8F else 0xBF) bs"
  by (simp add: utf8_decode.simps)

lemma decode_last:
  "in_range c lo hi \<Longrightarrow>
   utf8_decode (Suc 0) seen lo hi (c # bs) = seen @ c # utf8_decode 0 [] 0x80 0xBF bs"
  by (simp add: utf8_decode.simps in_range_def)

lemma decode_more:
  "in_range c lo hi \<Longrightarrow>
   utf8_decode (Suc (Suc k)) seen lo hi (c # bs) = utf8_decode (Suc k) (seen @ [c]) 0x80 0xBF bs"
  by (simp add: utf8_decode.simps in_range_def)

lemma valid_ascii:
  "(of_char b :: nat) \<le> 0x7F \<Longrightarrow> utf8_valid (b # bs) = utf8_valid bs"
  by simp

lemma valid_lead2:
  "0xC2 \<le> (of_char b :: nat) \<Longrightarrow> (of_char b :: nat) \<le> 0xDF \<Longrightarrow> utf8_valid (b # bs) \<Longrightarrow>
   \<exists>c1 r. bs = c1 # r \<and> in_range c1 0x80 0xBF \<and> utf8_valid r"
  by (cases bs) simp_all

lemma valid_lead3:
  assumes "0xE0 \<le> (of_char b :: nat)" "(of_char b :: nat) \<le> 0xEF" "utf8_valid (b # bs)"
  shows "\<exists>c1 c2 r. bs = c1 # c2 # r
     \<and> in_range c1 (if (of_char b :: nat) = 0xE0 then 0xA0 else 0x80)
           (if (of_char b :: nat) = 0xED then 0x9F else 0xBF)
     \<and> in_range c2 0x80 0xBF \<and> utf8_valid r"
proof (cases bs)
  case Nil
  with assms show ?thesis by simp
next
  case outer: (Cons c1 t)
  show ?thesis
  proof (cases t)
    case Nil
    with assms outer show ?thesis by simp
  next
    case (Cons c2 r)
    with assms outer show ?thesis by (simp add: Let_def)
  qed
qed

lemma valid_lead4:
  assumes "0xF0 \<le> (of_char b :: nat)" "(of_char b :: nat) \<le> 0xF4" "utf8_valid (b # bs)"
  shows "\<exists>c1 c2 c3 r. bs = c1 # c2 # c3 # r
     \<and> in_range c1 (if (of_char b :: nat) = 0xF0 then 0x90 else 0x80)
           (if (of_char b :: nat) = 0xF4 then 0x8F else 0xBF)
     \<and> in_range c2 0x80 0xBF \<and> in_range c3 0x80 0xBF \<and> utf8_valid r"
proof (cases bs)
  case Nil
  with assms show ?thesis by simp
next
  case outer: (Cons c1 t)
  show ?thesis
  proof (cases t)
    case Nil
    with assms outer show ?thesis by simp
  next
    case middle: (Cons c2 t2)
    show ?thesis
    proof (cases t2)
      case Nil
      with assms outer middle show ?thesis by simp
    next
      case (Cons c3 r)
      with assms outer middle show ?thesis by (simp add: Let_def)
    qed
  qed
qed

lemma valid_lead_cases:
  assumes "utf8_valid (b # bs)"
  shows "(of_char b :: nat) \<le> 0x7F
       \<or> (0xC2 \<le> (of_char b :: nat) \<and> (of_char b :: nat) \<le> 0xDF)
       \<or> (0xE0 \<le> (of_char b :: nat) \<and> (of_char b :: nat) \<le> 0xEF)
       \<or> (0xF0 \<le> (of_char b :: nat) \<and> (of_char b :: nat) \<le> 0xF4)"
  using assms by (simp add: Let_def split: if_splits)

lemma utf8_decode_valid:
  "utf8_valid bs \<Longrightarrow> utf8_decode 0 [] 0x80 0xBF bs = bs"
proof (induction "length bs" arbitrary: bs rule: less_induct)
  case less
  show ?case
  proof (cases bs)
    case Nil
    then show ?thesis by (simp add: utf8_decode.simps)
  next
    case (Cons b t)
    with less.prems have v: "utf8_valid (b # t)" by simp
    from valid_lead_cases [OF v] consider
        (one) "(of_char b :: nat) \<le> 0x7F"
      | (two) "0xC2 \<le> (of_char b :: nat)" "(of_char b :: nat) \<le> 0xDF"
      | (three) "0xE0 \<le> (of_char b :: nat)" "(of_char b :: nat) \<le> 0xEF"
      | (four) "0xF0 \<le> (of_char b :: nat)" "(of_char b :: nat) \<le> 0xF4"
      by blast
    then show ?thesis
    proof cases
      case one
      with v have "utf8_valid t" by (simp only: valid_ascii)
      then have "utf8_decode 0 [] 0x80 0xBF t = t"
        using less.hyps [of t] Cons by simp
      with one show ?thesis by (simp add: Cons decode_ascii)
    next
      case two
      from valid_lead2 [OF two v] obtain c1 r where
        t: "t = c1 # r" and c1: "in_range c1 0x80 0xBF" and r: "utf8_valid r"
        by blast
      have IH: "utf8_decode 0 [] 0x80 0xBF r = r"
        using less.hyps [of r] r Cons t by simp
      have "utf8_decode 0 [] 0x80 0xBF (b # c1 # r) = utf8_decode (Suc 0) [b] 0x80 0xBF (c1 # r)"
        using decode_lead2 [OF two] by simp
      also have "\<dots> = [b] @ c1 # utf8_decode 0 [] 0x80 0xBF r"
        by (rule decode_last [OF c1])
      finally show ?thesis by (simp add: Cons t IH)
    next
      case three
      let ?lo = "if (of_char b :: nat) = 0xE0 then 0xA0 else 0x80"
      let ?hi = "if (of_char b :: nat) = 0xED then 0x9F else 0xBF"
      from valid_lead3 [OF three v] obtain c1 c2 r where
        t: "t = c1 # c2 # r" and c1: "in_range c1 ?lo ?hi"
        and c2: "in_range c2 0x80 0xBF" and r: "utf8_valid r"
        by blast
      have IH: "utf8_decode 0 [] 0x80 0xBF r = r"
        using less.hyps [of r] r Cons t by simp
      have "utf8_decode 0 [] 0x80 0xBF (b # c1 # c2 # r) =
              utf8_decode (Suc (Suc 0)) [b] ?lo ?hi (c1 # c2 # r)"
        using decode_lead3 [OF three] by (simp only: numeral_2_eq_2)
      also have "\<dots> = utf8_decode (Suc 0) ([b] @ [c1]) 0x80 0xBF (c2 # r)"
        by (rule decode_more [OF c1])
      also have "\<dots> = ([b] @ [c1]) @ c2 # utf8_decode 0 [] 0x80 0xBF r"
        by (rule decode_last [OF c2])
      finally show ?thesis by (simp add: Cons t IH)
    next
      case four
      let ?lo = "if (of_char b :: nat) = 0xF0 then 0x90 else 0x80"
      let ?hi = "if (of_char b :: nat) = 0xF4 then 0x8F else 0xBF"
      from valid_lead4 [OF four v] obtain c1 c2 c3 r where
        t: "t = c1 # c2 # c3 # r" and c1: "in_range c1 ?lo ?hi"
        and c2: "in_range c2 0x80 0xBF" and c3: "in_range c3 0x80 0xBF"
        and r: "utf8_valid r"
        by blast
      have IH: "utf8_decode 0 [] 0x80 0xBF r = r"
        using less.hyps [of r] r Cons t by simp
      have "utf8_decode 0 [] 0x80 0xBF (b # c1 # c2 # c3 # r) =
              utf8_decode (Suc (Suc (Suc 0))) [b] ?lo ?hi (c1 # c2 # c3 # r)"
        using decode_lead4 [OF four] by (simp only: numeral_3_eq_3)
      also have "\<dots> = utf8_decode (Suc (Suc 0)) ([b] @ [c1]) 0x80 0xBF (c2 # c3 # r)"
        by (rule decode_more [OF c1])
      also have "\<dots> = utf8_decode (Suc 0) (([b] @ [c1]) @ [c2]) 0x80 0xBF (c3 # r)"
        by (rule decode_more [OF c2])
      also have "\<dots> = (([b] @ [c1]) @ [c2]) @ c3 # utf8_decode 0 [] 0x80 0xBF r"
        by (rule decode_last [OF c3])
      finally show ?thesis by (simp add: Cons t IH)
    qed
  qed
qed

lemma Buffer_toString_valid: "utf8_valid bs \<Longrightarrow> Buffer_toString bs = bs"
  by (simp add: Buffer_toString_def utf8_decode_valid)

lemma Buffer_from_skip:
  "a \<noteq> CHR 0xED \<Longrightarrow> Buffer_from (a # bs) = a # Buffer_from bs"
  by (cases bs rule: Buffer_from.cases) simp_all

lemma Buffer_from_skip2:
  "(of_char b :: nat) < 0xA0 \<Longrightarrow> Buffer_from (a # b # bs) = a # Buffer_from (b # bs)"
  by (cases bs) simp_all

lemma continuation_not_ED: "in_range c lo 0xBF \<Longrightarrow> c \<noteq> CHR 0xED"
  by (auto simp: in_range_def)

lemma Buffer_from_valid: "utf8_valid bs \<Longrightarrow> Buffer_from bs = bs"
proof (induction "length bs" arbitrary: bs rule: less_induct)
  case less
  show ?case
  proof (cases bs)
    case Nil
    then show ?thesis by simp
  next
    case (Cons b t)
    with less.prems have v: "utf8_valid (b # t)" by simp
    from valid_lead_cases [OF v] consider
        (one) "(of_char b :: nat) \<le> 0x7F"
      | (two) "0xC2 \<le> (of_char b :: nat)" "(of_char b :: nat) \<le> 0xDF"
      | (three) "0xE0 \<le> (of_char b :: nat)" "(of_char b :: nat) \<le> 0xEF"
      | (four) "0xF0 \<le> (of_char b :: nat)" "(of_char b :: nat) \<le> 0xF4"
      by blast
    then show ?thesis
    proof cases
      case one
      with v have "utf8_valid t" by (simp only: valid_ascii)
      then have IH: "Buffer_from t = t"
        using less.hyps [of t] Cons by simp
      from one have "b \<noteq> CHR 0xED" by auto
      then show ?thesis by (simp add: Cons Buffer_from_skip IH)
    next
      case two
      from valid_lead2 [OF two v] obtain c1 r where
        t: "t = c1 # r" and c1: "in_range c1 0x80 0xBF" and r: "utf8_valid r"
        by blast
      have IH: "Buffer_from r = r"
        using less.hyps [of r] r Cons t by simp
      from two have "b \<noteq> CHR 0xED" by auto
      moreover from c1 have "c1 \<noteq> CHR 0xED" by (rule continuation_not_ED)
      ultimately show ?thesis by (simp add: Cons t Buffer_from_skip IH)
    next
      case three
      let ?lo = "if (of_char b :: nat) = 0xE0 then 0xA0 else 0x80"
      let ?hi = "if (of_char b :: nat) = 0xED then 0x9F else 0xBF"
      from valid_lead3 [OF three v] obtain c1 c2 r where
        t: "t = c1 # c2 # r" and c1: "in_range c1 ?lo ?hi"
        and c2: "in_range c2 0x80 0xBF" and r: "utf8_valid r"
        by blast
      have IH: "Buffer_from r = r"
        using less.hyps [of r] r Cons t by simp
      have first: "Buffer_from (b # c1 # c2 # r) = b # Buffer_from (c1 # c2 # r)"
      proof (cases "b = CHR 0xED")
        case True
        with c1 have "(of_char c1 :: nat) < 0xA0" by (simp add: in_range_def)
        then show ?thesis by (rule Buffer_from_skip2)
      next
        case False
        then show ?thesis by (rule Buffer_from_skip)
      qed
      from c1 have "c1 \<noteq> CHR 0xED" by (auto simp: in_range_def split: if_splits)
      moreover from c2 have "c2 \<noteq> CHR 0xED" by (rule continuation_not_ED)
      ultimately have "Buffer_from (c1 # c2 # r) = c1 # c2 # r"
        by (simp add: Buffer_from_skip IH)
      then show ?thesis by (simp only: Cons t first)
    next
      case four
      let ?lo = "if (of_char b :: nat) = 0xF0 then 0x90 else 0x80"
      let ?hi = "if (of_char b :: nat) = 0xF4 then 0x8F else 0xBF"
      from valid_lead4 [OF four v] obtain c1 c2 c3 r where
        t: "t = c1 # c2 # c3 # r" and c1: "in_range c1 ?lo ?hi"
        and c2: "in_range c2 0x80 0xBF" and c3: "in_range c3 0x80 0xBF"
        and r: "utf8_valid r"
        by blast
      have IH: "Buffer_from r = r"
        using less.hyps [of r] r Cons t by simp
      from four have "b \<noteq> CHR 0xED" by auto
      moreover from c1 have "c1 \<noteq> CHR 0xED" by (auto simp: in_range_def split: if_splits)
      moreover from c2 have "c2 \<noteq> CHR 0xED" by (rule continuation_not_ED)
      moreover from c3 have "c3 \<noteq> CHR 0xED" by (rule continuation_not_ED)
      ultimately show ?thesis by (simp add: Cons t Buffer_from_skip IH)
    qed
  qed
qed

section \<open>Splitting and tokens\<close>

lemma js_split_no_sep: "sep \<notin> set s \<Longrightarrow> js_split sep s = [s]"
  by (induction s) auto

lemma js_split_append:
  "sep \<notin> set xs \<Longrightarrow> js_split sep (xs @ sep # ys) = xs # js_split sep ys"
  by (induction xs) auto

lemma uuid_char_ok_no_colon: "uuid_char_ok p c \<Longrightarrow> c \<noteq> CHR '':''"
  by (auto simp: uuid_char_ok_def split: if_splits)

lemma is_uuid_no_colon: "is_uuid u \<Longrightarrow> CHR '':'' \<notin> set u"
proof
  assume u: "is_uuid u" and mem: "CHR '':'' \<in> set u"
  from mem obtain i where i: "i < length u" "u ! i = CHR '':''"
    by (auto simp: in_set_conv_nth)
  from u have "uuid_char_ok (uuid_shape ! i) (u ! i)"
    using i(1) by (simp add: is_uuid_def list_all2_conv_all_nth)
  then show False using i(2) uuid_char_ok_no_colon by auto
qed

lemma token_parts:
  assumes "CHR '':'' \<notin> set u"
  shows "js_split (CHR '':'') (''TOKEN:'' @ u @ '':'' @ base64_encode B) =
           [''TOKEN'', u, base64_encode B]"
  using assms by (simp add: js_split_append js_split_no_sep base64_encode_no_colon)

lemma detokenize_token:
  assumes "CHR '':'' \<notin> set u" and "B \<noteq> []"
  shows "detokenizeData (''TOKEN:'' @ u @ '':'' @ base64_encode B) = Buffer_toString B"
proof -
  have p: "prefix ''TOKEN:'' (''TOKEN:'' @ u @ '':'' @ base64_encode B)"
    by simp
  have ne: "base64_encode B \<noteq> []"
    using assms(2) by (rule base64_encode_nonempty)
  show ?thesis
    unfolding detokenizeData_def
    by (simp only: p if_True Let_def token_parts [OF assms(1)])
       (simp add: ne base64_decode_encode)
qed

section \<open>The shape of \<^verbatim>\<open>encrypt\<close> and \<^verbatim>\<open>decrypt\<close> per classification\<close>

lemma tiers_distinct:
  "PUBLIC \<noteq> INTERNAL" "PUBLIC \<noteq> CONFIDENTIAL" "PUBLIC \<noteq> RESTRICTED"
  "INTERNAL \<noteq> PUBLIC" "INTERNAL \<noteq> CONFIDENTIAL" "INTERNAL \<noteq> RESTRICTED"
  "CONFIDENTIAL \<noteq> PUBLIC" "CONFIDENTIAL \<noteq> INTERNAL" "CONFIDENTIAL \<noteq> RESTRICTED"
  "RESTRICTED \<noteq> PUBLIC" "RESTRICTED \<noteq> INTERNAL" "RESTRICTED \<noteq> CONFIDENTIAL"
  by (simp_all add: PUBLIC_def INTERNAL_def CONFIDENTIAL_def RESTRICTED_def)

lemma generateDataKey_Inr:
  assumes "generateDataKey rt ent s = (Inr k, s')"
  shows "keyId k = key_uuid ent"
    and "expiresAt k = expiry_base_ms ent + cacheTimeout s"
    and "keyCache s' = AList.update (key_uuid ent) k (keyCache s)"
  using assms
  by (auto simp: generateDataKey_def generateDataKey_try_def Let_def
      split: promise.splits option.splits prod.splits sum.splits)

lemma encryptConfidentialData_Inr:
  assumes "encryptConfidentialData rt ent s data ts = (Inr env, s')"
  shows "\<exists>k d c. generateDataKey rt ent s = (Inr k, s') \<and> data = Some d
           \<and> cipher_hex rt ''aes-256-cbc'' (plaintextKey k) d = Some c
           \<and> env = \<lparr>encryptedBlob = c, dataKeyId = keyId k,
                     encryptionContext = ENCRYPTION_CONFIG_encryptionContext (NODE_ENV rt),
                     algorithm = ''aes-256-cbc'', classification = CONFIDENTIAL,
                     timestamp = ts, iv = Some (hex_encode (random_iv ent)),
                     authTag = Some ''sha256-hmac''\<rparr>"
  using assms
  by (auto simp: encryptConfidentialData_def split: prod.splits sum.splits option.splits)

lemma encrypt_Inr_cases:
  assumes "encrypt rt ent s P cls = (Inr env, s')"
  obtains
    (public) t where "cls = PUBLIC" "JSON_stringify rt P = Text t"
      "encryptPublicData rt (Some t) (now_iso ent) = Inr env" "s' = s"
  | (internal) t where "cls = INTERNAL" "JSON_stringify rt P = Text t"
      "encryptInternalData rt s (Some t) (now_iso ent) = Inr env" "s' = s"
  | (confidential) t where "cls = CONFIDENTIAL" "JSON_stringify rt P = Text t"
      "encryptConfidentialData rt ent s (Some t) (now_iso ent) = (Inr env, s')"
  | (restricted) t where "cls = RESTRICTED" "JSON_stringify rt P = Text t"
      "encryptConfidentialData rt ent s
         (Some (''TOKEN:'' @ token_uuid ent @ '':'' @ base64_encode (Buffer_from t)))
         (now_iso ent)
       = (Inr env, s')"
proof (cases "JSON_stringify rt P")
  case Throws
  with assms show ?thesis by (simp add: encrypt_def encrypt_try_def)
next
  case Undefined
  with assms show ?thesis
    by (auto simp: encrypt_def encrypt_try_def text_of_def Let_def encryptPublicData_def
        encryptInternalData_def encryptConfidentialData_def encryptRestrictedData_def
        tokenizeData_def split: if_splits prod.splits sum.splits)
next
  case (Text t)
  with assms show ?thesis
    by (auto simp: encrypt_def encrypt_try_def text_of_def Let_def
        encryptRestrictedData_def tokenizeData_def
        split: if_splits prod.splits sum.splits
        intro: public internal confidential restricted)
qed

lemma decrypt_PUBLIC:
  assumes "classification env = PUBLIC"
  shows "decrypt rt now s env =
           (case JSON_parse rt (Buffer_toString (base64_decode (encryptedBlob env))) of
              None \<Rightarrow> (Inl Failed_to_decrypt_data, s)
            | Some v \<Rightarrow> (Inr v, s))"
  using assms
  by (simp add: decrypt_def decrypt_try_def decryptPublicData_def Let_def split: option.splits)

lemma decrypt_INTERNAL:
  assumes "classification env = INTERNAL"
  shows "decrypt rt now s env =
           (case kms_decrypt rt (base64_decode (encryptedBlob env))
                   (ENCRYPTION_CONFIG_encryptionContext (NODE_ENV rt)) of
              Rejected \<Rightarrow> (Inl Failed_to_decrypt_data, s)
            | Resolved None \<Rightarrow> (Inl Failed_to_decrypt_data, s)
            | Resolved (Some pt) \<Rightarrow>
                (case JSON_parse rt (Buffer_toString pt) of
                   None \<Rightarrow> (Inl Failed_to_decrypt_data, s)
                 | Some v \<Rightarrow> (Inr v, s)))"
  using assms
  by (simp add: decrypt_def decrypt_try_def decryptInternalData_def Let_def tiers_distinct
      split: option.splits promise.splits)

lemma decrypt_CONFIDENTIAL:
  assumes "classification env = CONFIDENTIAL"
  shows "decrypt rt now s env =
           (case getOrDecryptDataKey now s (dataKeyId env) of
              (Inl e, s') \<Rightarrow> (Inl Failed_to_decrypt_data, s')
            | (Inr k, s') \<Rightarrow>
                (case decipher_utf8 rt ''aes-256-cbc'' (plaintextKey k) (encryptedBlob env) of
                   None \<Rightarrow> (Inl Failed_to_decrypt_data, s')
                 | Some d \<Rightarrow>
                     (case JSON_parse rt d of
                        None \<Rightarrow> (Inl Failed_to_decrypt_data, s')
                      | Some v \<Rightarrow> (Inr v, s'))))"
  using assms
  by (simp add: decrypt_def decrypt_try_def decryptConfidentialData_def Let_def tiers_distinct
      split: option.splits prod.splits sum.splits)

lemma decrypt_RESTRICTED:
  assumes "classification env = RESTRICTED"
  shows "decrypt rt now s env =
           (case getOrDecryptDataKey now s (dataKeyId env) of
              (Inl e, s') \<Rightarrow> (Inl Failed_to_decrypt_data, s')
            | (Inr k, s') \<Rightarrow>
                (case decipher_utf8 rt ''aes-256-cbc'' (plaintextKey k) (encryptedBlob env) of
                   None \<Rightarrow> (Inl Failed_to_decrypt_data, s')
                 | Some d \<Rightarrow>
                     (case JSON_parse rt (detokenizeData d) of
                        None \<Rightarrow> (Inl Failed_to_decrypt_data, s')
                      | Some v \<Rightarrow> (Inr v, s'))))"
  using assms
  by (simp add: decrypt_def decrypt_try_def decryptConfidentialData_def
      decryptRestrictedData_def Let_def tiers_distinct
      split: option.splits prod.splits sum.splits)

lemma lookup_miss:
  assumes "map_of (keyCache s) kid = None
           \<or> (\<exists>k. map_of (keyCache s) kid = Some k \<and> expiresAt k \<le> now)"
  shows "getOrDecryptDataKey now s kid = (Inl Data_key_decryption_not_implemented, s)"
  using assms by (auto simp: getOrDecryptDataKey_def)

lemma lookup_hit:
  assumes "map_of (keyCache s) kid = Some k" and "now < expiresAt k"
  shows "getOrDecryptDataKey now s kid = (Inr k, s)"
  using assms by (simp add: getOrDecryptDataKey_def)

lemma lookup_Inr:
  assumes "getOrDecryptDataKey now s kid = (Inr k, s')"
  shows "now < expiresAt k" and "map_of (keyCache s) kid = Some k" and "s' = s"
  using assms by (auto simp: getOrDecryptDataKey_def split: option.splits if_splits)

lemma encrypt_try_unsupported:
  assumes "cls \<noteq> PUBLIC" "cls \<noteq> INTERNAL" "cls \<noteq> CONFIDENTIAL" "cls \<noteq> RESTRICTED"
    and "JSON_stringify rt P \<noteq> Throws"
  shows "encrypt_try rt ent s P cls = Inl (Unsupported_data_classification cls)"
  using assms by (simp add: encrypt_try_def Let_def split: stringified.splits)

section \<open>Round trips, tier by tier\<close>

lemma public_round_trip:
  assumes "encrypt rt ent s P PUBLIC = (Inr env, s')"
    and "\<And>t. JSON_stringify rt P = Text t \<Longrightarrow> utf8_valid t \<and> JSON_parse rt t = Some P"
  shows "decrypt rt now s' env = (Inr P, s')"
  using assms(1)
proof (cases rule: encrypt_Inr_cases)
  case (public t)
  have t: "utf8_valid t" "JSON_parse rt t = Some P"
    using assms(2) [OF public(2)] by simp_all
  from public have env: "env = \<lparr>encryptedBlob = base64_encode t, dataKeyId = ''public'',
      encryptionContext = ENCRYPTION_CONFIG_encryptionContext (NODE_ENV rt),
      algorithm = ''base64'', classification = PUBLIC, timestamp = now_iso ent,
      iv = None, authTag = None\<rparr>"
    by (auto simp: encryptPublicData_def Buffer_from_valid [OF t(1)])
  have "classification env = PUBLIC" by (simp add: env)
  then have "decrypt rt now s' env =
      (case JSON_parse rt (Buffer_toString (base64_decode (encryptedBlob env))) of
         None \<Rightarrow> (Inl Failed_to_decrypt_data, s')
       | Some v \<Rightarrow> (Inr v, s'))"
    by (rule decrypt_PUBLIC)
  also have "\<dots> = (Inr P, s')"
    by (simp add: env base64_decode_encode Buffer_toString_valid [OF t(1)] t(2))
  finally show ?thesis .
qed (simp_all add: tiers_distinct)

lemma internal_round_trip:
  assumes "encrypt rt ent s P INTERNAL = (Inr env, s')"
    and "\<And>t. JSON_stringify rt P = Text t \<Longrightarrow> utf8_valid t \<and> JSON_parse rt t = Some P"
    and "\<And>kid pt ctx blob. kms_encrypt rt kid pt ctx = Resolved (Some blob) \<Longrightarrow>
           kms_decrypt rt blob ctx = Resolved (Some pt)"
  shows "decrypt rt now s' env = (Inr P, s')"
  using assms(1)
proof (cases rule: encrypt_Inr_cases)
  case (internal t)
  have t: "utf8_valid t" "JSON_parse rt t = Some P"
    using assms(2) [OF internal(2)] by simp_all
  from internal(3) obtain blob where
    blob: "kms_encrypt rt (customerMasterKeyId s) t
             (ENCRYPTION_CONFIG_encryptionContext (NODE_ENV rt)) = Resolved (Some blob)"
    and env: "env = \<lparr>encryptedBlob = base64_encode blob, dataKeyId = customerMasterKeyId s,
      encryptionContext = ENCRYPTION_CONFIG_encryptionContext (NODE_ENV rt),
      algorithm = ''aws-kms'', classification = INTERNAL, timestamp = now_iso ent,
      iv = None, authTag = None\<rparr>"
    by (auto simp: encryptInternalData_def Buffer_from_valid [OF t(1)]
        split: promise.splits option.splits)
  have "classification env = INTERNAL" by (simp add: env)
  note decrypt_INTERNAL [OF this, of rt now s']
  also have "(case kms_decrypt rt (base64_decode (encryptedBlob env))
                   (ENCRYPTION_CONFIG_encryptionContext (NODE_ENV rt)) of
              Rejected \<Rightarrow> (Inl Failed_to_decrypt_data, s')
            | Resolved None \<Rightarrow> (Inl Failed_to_decrypt_data, s')
            | Resolved (Some pt) \<Rightarrow>
                (case JSON_parse rt (Buffer_toString pt) of
                   None \<Rightarrow> (Inl Failed_to_decrypt_data, s')
                 | Some v \<Rightarrow> (Inr v, s'))) = (Inr P, s')"
    by (simp add: env base64_decode_encode assms(3) [OF blob]
        Buffer_toString_valid [OF t(1)] t(2))
  finally show ?thesis .
qed (simp_all add: tiers_distinct)

lemma confidential_round_trip:
  assumes "encrypt rt ent s P CONFIDENTIAL = (Inr env, s')"
    and "\<And>t. JSON_stringify rt P = Text t \<Longrightarrow> utf8_valid t \<and> JSON_parse rt t = Some P"
    and "\<And>key d c. cipher_hex rt ''aes-256-cbc'' key d = Some c \<Longrightarrow>
           decipher_utf8 rt ''aes-256-cbc'' key c = Some d"
    and "now < expiry_base_ms ent + cacheTimeout s"
  shows "decrypt rt now s' env = (Inr P, s')"
  using assms(1)
proof (cases rule: encrypt_Inr_cases)
  case (confidential t)
  from encryptConfidentialData_Inr [OF confidential(3)] obtain k c where
    gen: "generateDataKey rt ent s = (Inr k, s')"
    and c: "cipher_hex rt ''aes-256-cbc'' (plaintextKey k) t = Some c"
    and env: "env = \<lparr>encryptedBlob = c, dataKeyId = keyId k,
      encryptionContext = ENCRYPTION_CONFIG_encryptionContext (NODE_ENV rt),
      algorithm = ''aes-256-cbc'', classification = CONFIDENTIAL, timestamp = now_iso ent,
      iv = Some (hex_encode (random_iv ent)), authTag = Some ''sha256-hmac''\<rparr>"
    by auto
  note k = generateDataKey_Inr [OF gen]
  have "map_of (keyCache s') (keyId k) = Some k"
    by (simp add: k(1) k(3) update_conv')
  moreover have "now < expiresAt k" using assms(4) by (simp add: k(2))
  ultimately have hit: "getOrDecryptDataKey now s' (keyId k) = (Inr k, s')"
    by (simp add: lookup_hit)
  have "classification env = CONFIDENTIAL" by (simp add: env)
  note decrypt_CONFIDENTIAL [OF this, of rt now s']
  also have "(case getOrDecryptDataKey now s' (dataKeyId env) of
              (Inl e, s'') \<Rightarrow> (Inl Failed_to_decrypt_data, s'')
            | (Inr k, s'') \<Rightarrow>
                (case decipher_utf8 rt ''aes-256-cbc'' (plaintextKey k) (encryptedBlob env) of
                   None \<Rightarrow> (Inl Failed_to_decrypt_data, s'')
                 | Some d \<Rightarrow>
                     (case JSON_parse rt d of
                        None \<Rightarrow> (Inl Failed_to_decrypt_data, s'')
                      | Some v \<Rightarrow> (Inr v, s'')))) = (Inr P, s')"
    by (simp add: env hit assms(3) [OF c] assms(2) [OF confidential(2), THEN conjunct2])
  finally show ?thesis .
qed (simp_all add: tiers_distinct)

lemma restricted_round_trip_parses_the_token:
  assumes "encrypt rt ent s P RESTRICTED = (Inr env, s')"
    and "\<And>key d c. cipher_hex rt ''aes-256-cbc'' key d = Some c \<Longrightarrow>
           decipher_utf8 rt ''aes-256-cbc'' key c = Some d"
    and "now < expiry_base_ms ent + cacheTimeout s"
  shows "\<exists>t. JSON_stringify rt P = Text t \<and>
           decrypt rt now s' env =
             (case JSON_parse rt
                     (''TOKEN:'' @ token_uuid ent @ '':'' @ base64_encode (Buffer_from t)) of
                None \<Rightarrow> (Inl Failed_to_decrypt_data, s')
              | Some v \<Rightarrow> (Inr v, s'))"
  using assms(1)
proof (cases rule: encrypt_Inr_cases)
  case (restricted t)
  let ?tok = "''TOKEN:'' @ token_uuid ent @ '':'' @ base64_encode (Buffer_from t)"
  from encryptConfidentialData_Inr [OF restricted(3)] obtain k c where
    gen: "generateDataKey rt ent s = (Inr k, s')"
    and c: "cipher_hex rt ''aes-256-cbc'' (plaintextKey k) ?tok = Some c"
    and env: "env = \<lparr>encryptedBlob = c, dataKeyId = keyId k,
      encryptionContext = ENCRYPTION_CONFIG_encryptionContext (NODE_ENV rt),
      algorithm = ''aes-256-cbc'', classification = CONFIDENTIAL, timestamp = now_iso ent,
      iv = Some (hex_encode (random_iv ent)), authTag = Some ''sha256-hmac''\<rparr>"
    by auto
  note k = generateDataKey_Inr [OF gen]
  have "map_of (keyCache s') (keyId k) = Some k"
    by (simp add: k(1) k(3) update_conv')
  moreover have "now < expiresAt k" using assms(3) by (simp add: k(2))
  ultimately have hit: "getOrDecryptDataKey now s' (keyId k) = (Inr k, s')"
    by (simp add: lookup_hit)
  have "classification env = CONFIDENTIAL" by (simp add: env)
  note decrypt_CONFIDENTIAL [OF this, of rt now s']
  also have "(case getOrDecryptDataKey now s' (dataKeyId env) of
              (Inl e, s'') \<Rightarrow> (Inl Failed_to_decrypt_data, s'')
            | (Inr k, s'') \<Rightarrow>
                (case decipher_utf8 rt ''aes-256-cbc'' (plaintextKey k) (encryptedBlob env) of
                   None \<Rightarrow> (Inl Failed_to_decrypt_data, s'')
                 | Some d \<Rightarrow>
                     (case JSON_parse rt d of
                        None \<Rightarrow> (Inl Failed_to_decrypt_data, s'')
                      | Some v \<Rightarrow> (Inr v, s'')))) =
          (case JSON_parse rt ?tok of
             None \<Rightarrow> (Inl Failed_to_decrypt_data, s')
           | Some v \<Rightarrow> (Inr v, s'))"
    by (simp add: env hit assms(2) [OF c])
  finally show ?thesis using restricted(2) by blast
qed (simp_all add: tiers_distinct)
section \<open>Runs on the test double\<close>

lemma run_public:
  "encrypt double entropy0 service0 1500 PUBLIC = (Inr envelope_public, service0)"
  by code_simp

lemma run_internal:
  "encrypt double entropy0 service0 1500 INTERNAL = (Inr envelope_internal, service0)"
  by code_simp

lemma run_confidential:
  "encrypt double entropy0 service0 1500 CONFIDENTIAL = (Inr envelope_confidential, service1)"
  by code_simp

lemma run_restricted:
  "encrypt double entropy0 service0 1500 RESTRICTED = (Inr envelope_restricted, service1)"
  by code_simp

lemma run_generateDataKey:
  "generateDataKey double entropy0 service0 = (Inr key1, service1)"
  by code_simp

lemma run_decrypt_public:
  "decrypt double 1704067200001 service0 envelope_public = (Inr 1500, service0)"
  by code_simp

lemma run_decrypt_internal:
  "decrypt double 1704067200001 service0 envelope_internal = (Inr 1500, service0)"
  by code_simp

lemma run_decrypt_confidential:
  "decrypt double 1704067200001 service1 envelope_confidential = (Inr 1500, service1)"
  by code_simp

lemma run_decrypt_restricted:
  "decrypt double 1704067200001 service1 envelope_restricted =
     (Inl Failed_to_decrypt_data, service1)"
  by code_simp

lemma run_constructor:
  "new_AWSKMSService (Some ''test-key-id'') None = Inr service0"
  by code_simp

section \<open>The claims\<close>

text \<open>
  C1 (round trip). For the classifications \<open>public\<close>, \<open>internal\<close> and \<open>confidential\<close>
  decrypting what \<^verbatim>\<open>encrypt\<close> returned gives the payload back (\<open>public_round_trip\<close>,
  \<open>internal_round_trip\<close>, \<open>confidential_round_trip\<close>). For \<open>restricted\<close> it does not:
  \<^verbatim>\<open>encryptRestrictedData\<close> returns the envelope of \<^verbatim>\<open>encryptConfidentialData\<close>
  unchanged, so \<^verbatim>\<open>decrypt\<close> takes the confidential branch, never calls
  \<^verbatim>\<open>detokenizeData\<close>, and gives the token \<^verbatim>\<open>TOKEN:<uuid>:<base64>\<close> to
  \<^verbatim>\<open>JSON.parse\<close> (\<open>restricted_round_trip_parses_the_token\<close>). On the test double,
  with the key still cached and not expired, the payload \<open>1500\<close> encrypted as restricted
  fails to decrypt.
\<close>

theorem restricted_round_trip_fails:
  "encrypt double entropy0 service0 1500 RESTRICTED = (Inr envelope_restricted, service1)
   \<and> map_of (keyCache service1) (dataKeyId envelope_restricted) = Some key1
   \<and> 1704067200001 < expiresAt key1
   \<and> decrypt double 1704067200001 service1 envelope_restricted
       = (Inl Failed_to_decrypt_data, service1)"
proof -
  have "map_of (keyCache service1) (dataKeyId envelope_restricted) = Some key1"
    by code_simp
  moreover have "1704067200001 < expiresAt key1"
    by code_simp
  ultimately show ?thesis
    using run_restricted run_decrypt_restricted by simp
qed

text \<open>
  C2 (the classification of the envelope is the caller's). Every envelope that
  \<^verbatim>\<open>encrypt\<close> returns for the classification \<open>restricted\<close> carries the classification
  \<open>confidential\<close>.
\<close>

theorem restricted_envelope_is_labelled_confidential:
  assumes "encrypt rt ent s P RESTRICTED = (Inr env, s')"
  shows "classification env = CONFIDENTIAL \<and> classification env \<noteq> RESTRICTED"
  using assms
proof (cases rule: encrypt_Inr_cases)
  case (restricted t)
  from encryptConfidentialData_Inr [OF restricted(3)]
  have "classification env = CONFIDENTIAL" by auto
  then show ?thesis by (simp add: tiers_distinct)
qed (simp_all add: tiers_distinct)

theorem restricted_envelope_is_labelled_confidential_witness:
  "encrypt double entropy0 service0 1500 RESTRICTED = (Inr envelope_restricted, service1)
   \<and> classification envelope_restricted = CONFIDENTIAL
   \<and> classification envelope_restricted \<noteq> RESTRICTED"
  using restricted_envelope_is_labelled_confidential [OF run_restricted] run_restricted
  by blast

text \<open>For the other three classifications the envelope does carry the caller's.\<close>

lemma classification_preserved_below_restricted:
  assumes "encrypt rt ent s P cls = (Inr env, s')" and "cls \<noteq> RESTRICTED"
  shows "classification env = cls"
  using assms(1)
proof (cases rule: encrypt_Inr_cases)
  case (public t)
  then show ?thesis by (auto simp: encryptPublicData_def)
next
  case (internal t)
  then show ?thesis
    by (auto simp: encryptInternalData_def split: promise.splits option.splits)
next
  case (confidential t)
  from encryptConfidentialData_Inr [OF confidential(3)] confidential(1)
  show ?thesis by auto
next
  case (restricted t)
  with assms(2) show ?thesis by simp
qed

text \<open>
  C3 (algorithm tag per classification), as stated: the tag for \<open>internal\<close> is
  \<^verbatim>\<open>root-kms\<close>. The code writes \<^verbatim>\<open>aws-kms\<close>.
\<close>

theorem internal_algorithm_tag_counterexample:
  "encrypt double entropy0 service0 1500 INTERNAL = (Inr envelope_internal, service0)
   \<and> algorithm envelope_internal = ''aws-kms''
   \<and> algorithm envelope_internal \<noteq> ''root-kms''"
proof -
  have "algorithm envelope_internal = ''aws-kms''" by code_simp
  then show ?thesis using run_internal by simp
qed

text \<open>
  C3, amended: whenever \<^verbatim>\<open>encrypt\<close> returns an envelope, the classification is one of the
  four and the tag is \<^verbatim>\<open>base64\<close> for \<open>public\<close>, \<^verbatim>\<open>aws-kms\<close> for \<open>internal\<close>, and
  \<^verbatim>\<open>aes-256-cbc\<close> for \<open>confidential\<close> and \<open>restricted\<close>.
\<close>

theorem algorithm_tag_per_classification:
  assumes "encrypt rt ent s P cls = (Inr env, s')"
  shows "(cls = PUBLIC \<and> algorithm env = ''base64'')
       \<or> (cls = INTERNAL \<and> algorithm env = ''aws-kms'')
       \<or> ((cls = CONFIDENTIAL \<or> cls = RESTRICTED) \<and> algorithm env = ''aes-256-cbc'')"
  using assms
proof (cases rule: encrypt_Inr_cases)
  case (public t)
  then show ?thesis by (auto simp: encryptPublicData_def)
next
  case (internal t)
  then show ?thesis
    by (auto simp: encryptInternalData_def split: promise.splits option.splits)
next
  case (confidential t)
  from encryptConfidentialData_Inr [OF confidential(3)] confidential(1)
  show ?thesis by auto
next
  case (restricted t)
  from encryptConfidentialData_Inr [OF restricted(3)] restricted(1)
  show ?thesis by auto
qed

theorem algorithm_tag_per_classification_witness:
  "encrypt double entropy0 service0 1500 PUBLIC = (Inr envelope_public, service0)
   \<and> algorithm envelope_public = ''base64''
   \<and> encrypt double entropy0 service0 1500 INTERNAL = (Inr envelope_internal, service0)
   \<and> algorithm envelope_internal = ''aws-kms''
   \<and> encrypt double entropy0 service0 1500 CONFIDENTIAL = (Inr envelope_confidential, service1)
   \<and> algorithm envelope_confidential = ''aes-256-cbc''
   \<and> encrypt double entropy0 service0 1500 RESTRICTED = (Inr envelope_restricted, service1)
   \<and> algorithm envelope_restricted = ''aes-256-cbc''"
  using algorithm_tag_per_classification [OF run_public]
    algorithm_tag_per_classification [OF run_internal]
    algorithm_tag_per_classification [OF run_confidential]
    algorithm_tag_per_classification [OF run_restricted]
    run_public run_internal run_confidential run_restricted
  by (simp add: tiers_distinct)




text \<open>
  C5 (tokenization is reversible), as stated for every byte sequence, the empty one
  included. For the empty string the token ends in a colon, its third part is the empty
  string, which \<^verbatim>\<open>parts[2]\<close> reads as false, and \<^verbatim>\<open>detokenizeData\<close> returns the token
  itself. For the string made of the surrogate U+D800 alone, \<^verbatim>\<open>Buffer.from\<close> writes
  U+FFFD into the token, and U+FFFD is what \<^verbatim>\<open>detokenizeData\<close> returns.
\<close>

theorem empty_payload_token_counterexample:
  "is_uuid ''3f2a1b4c-5d6e-4f70-8a9b-0c1d2e3f4a5b''
   \<and> map_sum id detokenizeData (tokenizeData ''3f2a1b4c-5d6e-4f70-8a9b-0c1d2e3f4a5b'' (Some []))
       = Inr ''TOKEN:3f2a1b4c-5d6e-4f70-8a9b-0c1d2e3f4a5b:''
   \<and> map_sum id detokenizeData (tokenizeData ''3f2a1b4c-5d6e-4f70-8a9b-0c1d2e3f4a5b'' (Some []))
       \<noteq> Inr []
   \<and> map_sum id detokenizeData
        (tokenizeData ''3f2a1b4c-5d6e-4f70-8a9b-0c1d2e3f4a5b''
           (Some [CHR 0xED, CHR 0xA0, CHR 0x80]))
       = Inr [CHR 0xEF, CHR 0xBF, CHR 0xBD]
   \<and> map_sum id detokenizeData
        (tokenizeData ''3f2a1b4c-5d6e-4f70-8a9b-0c1d2e3f4a5b''
           (Some [CHR 0xED, CHR 0xA0, CHR 0x80]))
       \<noteq> Inr [CHR 0xED, CHR 0xA0, CHR 0x80]"
  by code_simp

text \<open>
  C5, amended: for every non-empty well-formed string (one without a surrogate that has
  no partner) and every identifier in the format of \<^verbatim>\<open>crypto.randomUUID()\<close>,
  detokenizing the token gives the string back.
\<close>

theorem detokenize_tokenize:
  assumes "is_uuid u" and "B \<noteq> []" and "utf8_valid B"
  shows "map_sum id detokenizeData (tokenizeData u (Some B)) = Inr B"
proof -
  have "CHR '':'' \<notin> set u" using assms(1) by (rule is_uuid_no_colon)
  then have "detokenizeData (''TOKEN:'' @ u @ '':'' @ base64_encode B) = Buffer_toString B"
    using assms(2) by (rule detokenize_token)
  then show ?thesis
    by (simp add: tokenizeData_def Buffer_from_valid [OF assms(3)]
        Buffer_toString_valid [OF assms(3)])
qed

theorem detokenize_tokenize_witness:
  "is_uuid ''3f2a1b4c-5d6e-4f70-8a9b-0c1d2e3f4a5b''
   \<and> [CHR 0xE2, CHR 0x82, CHR 0xAC, CHR ''1'', CHR ''5'', CHR ''0'', CHR ''0''] \<noteq> []
   \<and> utf8_valid [CHR 0xE2, CHR 0x82, CHR 0xAC, CHR ''1'', CHR ''5'', CHR ''0'', CHR ''0'']
   \<and> map_sum id detokenizeData
        (tokenizeData ''3f2a1b4c-5d6e-4f70-8a9b-0c1d2e3f4a5b''
           (Some [CHR 0xE2, CHR 0x82, CHR 0xAC, CHR ''1'', CHR ''5'', CHR ''0'', CHR ''0'']))
       = Inr [CHR 0xE2, CHR 0x82, CHR 0xAC, CHR ''1'', CHR ''5'', CHR ''0'', CHR ''0'']"
proof -
  have u: "is_uuid ''3f2a1b4c-5d6e-4f70-8a9b-0c1d2e3f4a5b''" by code_simp
  have b: "[CHR 0xE2, CHR 0x82, CHR 0xAC, CHR ''1'', CHR ''5'', CHR ''0'', CHR ''0''] \<noteq> []"
    by simp
  have v: "utf8_valid [CHR 0xE2, CHR 0x82, CHR 0xAC, CHR ''1'', CHR ''5'', CHR ''0'', CHR ''0'']"
    by code_simp
  from detokenize_tokenize [OF u b v] u b v show ?thesis by blast
qed

text \<open>
  C6 (cache expiry). A key issued by \<^verbatim>\<open>generateDataKey\<close> when the clock read \<open>c\<close>
  (the \<^verbatim>\<open>Date.now()\<close> of \<^verbatim>\<open>expiresAt\<close>) with the time to live \<^verbatim>\<open>cacheTimeout\<close>: at any
  later time \<open>now > c + cacheTimeout\<close> the lookup by its identifier in the cache as
  \<^verbatim>\<open>generateDataKey\<close> left it, the entry still present, is a miss; so it is after the timer
  has deleted the entry; and no lookup, in any state of the service and for any
  identifier, returns that key.
\<close>

theorem expired_key_is_a_miss:
  assumes "generateDataKey rt ent s = (Inr dek, s1)"
    and "expiry_base_ms ent + cacheTimeout s < now"
  shows "map_of (keyCache s1) (keyId dek) = Some dek
       \<and> getOrDecryptDataKey now s1 (keyId dek) = (Inl Data_key_decryption_not_implemented, s1)
       \<and> fst (getOrDecryptDataKey now (timer_fires (keyId dek) s1) (keyId dek))
           = Inl Data_key_decryption_not_implemented
       \<and> (\<forall>s' kid. fst (getOrDecryptDataKey now s' kid) \<noteq> Inr dek)"
proof -
  note k = generateDataKey_Inr [OF assms(1)]
  have present: "map_of (keyCache s1) (keyId dek) = Some dek"
    by (simp add: k(1) k(3) update_conv')
  have late: "expiresAt dek \<le> now" using assms(2) by (simp add: k(2))
  have miss: "getOrDecryptDataKey now s1 (keyId dek)
                = (Inl Data_key_decryption_not_implemented, s1)"
    by (rule lookup_miss) (use present late in blast)
  have "map_of (keyCache (timer_fires (keyId dek) s1)) (keyId dek) = None"
    by (simp add: timer_fires_def delete_conv')
  then have evicted: "fst (getOrDecryptDataKey now (timer_fires (keyId dek) s1) (keyId dek))
                        = Inl Data_key_decryption_not_implemented"
    by (simp add: lookup_miss)
  have never: "fst (getOrDecryptDataKey now s' kid) \<noteq> Inr dek" for s' kid
  proof
    assume "fst (getOrDecryptDataKey now s' kid) = Inr dek"
    then obtain s'' where "getOrDecryptDataKey now s' kid = (Inr dek, s'')"
      by (cases "getOrDecryptDataKey now s' kid") simp
    then have "now < expiresAt dek" by (rule lookup_Inr)
    with late show False by simp
  qed
  from present miss evicted never show ?thesis by blast
qed

theorem expired_key_is_a_miss_witness:
  "generateDataKey double entropy0 service0 = (Inr key1, service1)
   \<and> expiry_base_ms entropy0 + cacheTimeout service0 < 1704068100001
   \<and> map_of (keyCache service1) (keyId key1) = Some key1
   \<and> getOrDecryptDataKey 1704068100001 service1 (keyId key1)
       = (Inl Data_key_decryption_not_implemented, service1)
   \<and> getOrDecryptDataKey 1704068099999 service1 (keyId key1) = (Inr key1, service1)"
proof -
  have t: "expiry_base_ms entropy0 + cacheTimeout service0 < 1704068100001"
    by code_simp
  have before: "getOrDecryptDataKey 1704068099999 service1 (keyId key1) = (Inr key1, service1)"
    by code_simp
  from expired_key_is_a_miss [OF run_generateDataKey t] run_generateDataKey t before
  show ?thesis by blast
qed

text \<open>
  C7 (an unknown classification is reported as such). The \<^verbatim>\<open>default\<close> branch of
  \<^verbatim>\<open>encrypt\<close> throws \<^verbatim>\<open>Unsupported data classification\<close> inside the \<^verbatim>\<open>try\<close> block, and the
  \<^verbatim>\<open>catch\<close> of the same method replaces it: for every string outside the enum the caller
  gets \<^verbatim>\<open>Failed to encrypt data\<close>, the error a throw of \<^verbatim>\<open>JSON.stringify\<close> gets, and the
  service state is unchanged.
\<close>

theorem unsupported_classification_is_a_generic_failure:
  assumes "cls \<noteq> PUBLIC" "cls \<noteq> INTERNAL" "cls \<noteq> CONFIDENTIAL" "cls \<noteq> RESTRICTED"
  shows "encrypt rt ent s P cls = (Inl Failed_to_encrypt_data, s)
       \<and> fst (encrypt rt ent s P cls) \<noteq> Inl (Unsupported_data_classification cls)"
  using assms
  by (simp add: encrypt_def encrypt_try_def Let_def split: stringified.splits)

theorem unsupported_classification_is_a_generic_failure_witness:
  "''invalid'' \<noteq> PUBLIC \<and> ''invalid'' \<noteq> INTERNAL \<and> ''invalid'' \<noteq> CONFIDENTIAL
   \<and> ''invalid'' \<noteq> RESTRICTED
   \<and> encrypt double entropy0 service0 1500 ''invalid'' = (Inl Failed_to_encrypt_data, service0)
   \<and> encrypt_try double entropy0 service0 1500 ''invalid''
       = Inl (Unsupported_data_classification ''invalid'')"
proof -
  have d: "''invalid'' \<noteq> PUBLIC" "''invalid'' \<noteq> INTERNAL" "''invalid'' \<noteq> CONFIDENTIAL"
    "''invalid'' \<noteq> RESTRICTED"
    by (simp_all add: PUBLIC_def INTERNAL_def CONFIDENTIAL_def RESTRICTED_def)
  have inner: "encrypt_try double entropy0 service0 1500 ''invalid''
       = Inl (Unsupported_data_classification ''invalid'')"
    by code_simp
  from unsupported_classification_is_a_generic_failure
      [OF d, where rt = double and ent = entropy0 and s = service0 and P = "1500::nat"]
    d inner
  show ?thesis by blast
qed

text \<open>
  C8 (the deciphering uses the \<^verbatim>\<open>iv\<close> of the envelope), as stated.
  \<^verbatim>\<open>decryptConfidentialData\<close> receives \<^verbatim>\<open>iv\<close> and never uses it, as
  \<^verbatim>\<open>encryptConfidentialData\<close> generates one and never gives it to the cipher. An envelope
  whose \<^verbatim>\<open>iv\<close> is not the one recorded at encryption, or is missing, decrypts to the
  payload.
\<close>

theorem iv_counterexample:
  "encrypt double entropy0 service0 1500 CONFIDENTIAL = (Inr envelope_confidential, service1)
   \<and> iv envelope_confidential = Some ''30313233343536373839616263646566''
   \<and> decrypt double 1704067200001 service1
         (envelope_confidential\<lparr>iv := Some ''ffffffffffffffffffffffffffffffff''\<rparr>)
       = (Inr 1500, service1)
   \<and> decrypt double 1704067200001 service1 (envelope_confidential\<lparr>iv := None\<rparr>)
       = (Inr 1500, service1)"
proof -
  have "iv envelope_confidential = Some ''30313233343536373839616263646566''"
    by code_simp
  moreover have "decrypt double 1704067200001 service1
         (envelope_confidential\<lparr>iv := Some ''ffffffffffffffffffffffffffffffff''\<rparr>)
       = (Inr 1500, service1)"
    by code_simp
  moreover have "decrypt double 1704067200001 service1 (envelope_confidential\<lparr>iv := None\<rparr>)
       = (Inr 1500, service1)"
    by code_simp
  ultimately show ?thesis using run_confidential by simp
qed

text \<open>
  C8, amended: for every \<open>confidential\<close> envelope, \<^verbatim>\<open>decrypt\<close> resolves the key by
  \<^verbatim>\<open>dataKeyId\<close>, deciphers \<^verbatim>\<open>encryptedBlob\<close> with the plaintext key alone and parses the
  result; the outcome is the same for every value of \<^verbatim>\<open>iv\<close>.
\<close>

theorem confidential_decrypt_ignores_iv:
  assumes "classification env = CONFIDENTIAL"
  shows "decrypt rt now s (env\<lparr>iv := v\<rparr>) =
           (case getOrDecryptDataKey now s (dataKeyId env) of
              (Inl e, s') \<Rightarrow> (Inl Failed_to_decrypt_data, s')
            | (Inr k, s') \<Rightarrow>
                (case decipher_utf8 rt ''aes-256-cbc'' (plaintextKey k) (encryptedBlob env) of
                   None \<Rightarrow> (Inl Failed_to_decrypt_data, s')
                 | Some d \<Rightarrow>
                     (case JSON_parse rt d of
                        None \<Rightarrow> (Inl Failed_to_decrypt_data, s')
                      | Some p \<Rightarrow> (Inr p, s'))))"
  using assms
  by (simp add: decrypt_def decrypt_try_def decryptConfidentialData_def Let_def tiers_distinct
      split: option.splits prod.splits sum.splits)

theorem confidential_decrypt_ignores_iv_witness:
  "classification envelope_confidential = CONFIDENTIAL
   \<and> decrypt double 1704067200001 service1 (envelope_confidential\<lparr>iv := Some ''00''\<rparr>) =
       (case getOrDecryptDataKey 1704067200001 service1 (dataKeyId envelope_confidential) of
          (Inl e, s') \<Rightarrow> (Inl Failed_to_decrypt_data, s')
        | (Inr k, s') \<Rightarrow>
            (case decipher_utf8 double ''aes-256-cbc'' (plaintextKey k)
                    (encryptedBlob envelope_confidential) of
               None \<Rightarrow> (Inl Failed_to_decrypt_data, s')
             | Some d \<Rightarrow>
                 (case JSON_parse double d of
                    None \<Rightarrow> (Inl Failed_to_decrypt_data, s')
                  | Some p \<Rightarrow> (Inr p, s'))))"
proof -
  have c: "classification envelope_confidential = CONFIDENTIAL" by code_simp
  from confidential_decrypt_ignores_iv [OF c] c show ?thesis by blast
qed

text \<open>
  C9 (a cache miss is an error and changes nothing). For every envelope classified
  \<open>confidential\<close> or \<open>restricted\<close> whose \<^verbatim>\<open>dataKeyId\<close> is not in the cache, or is there
  with an \<^verbatim>\<open>expiresAt\<close> that is not later than now, \<^verbatim>\<open>getOrDecryptDataKey\<close> and
  \<^verbatim>\<open>decrypt\<close> fail and return the service as it was: no key is issued, no entry removed.
\<close>

theorem decrypt_fails_on_cache_miss:
  assumes "classification env = CONFIDENTIAL \<or> classification env = RESTRICTED"
    and "map_of (keyCache s) (dataKeyId env) = None
         \<or> (\<exists>k. map_of (keyCache s) (dataKeyId env) = Some k \<and> expiresAt k \<le> now)"
  shows "getOrDecryptDataKey now s (dataKeyId env)
           = (Inl Data_key_decryption_not_implemented, s)
       \<and> decrypt rt now s env = (Inl Failed_to_decrypt_data, s)"
proof -
  have miss: "getOrDecryptDataKey now s (dataKeyId env)
                = (Inl Data_key_decryption_not_implemented, s)"
    using assms(2) by (rule lookup_miss)
  from assms(1) have "decrypt rt now s env = (Inl Failed_to_decrypt_data, s)"
  proof
    assume "classification env = CONFIDENTIAL"
    from decrypt_CONFIDENTIAL [OF this, of rt now s] show ?thesis by (simp add: miss)
  next
    assume "classification env = RESTRICTED"
    from decrypt_RESTRICTED [OF this, of rt now s] show ?thesis by (simp add: miss)
  qed
  with miss show ?thesis by simp
qed

theorem decrypt_fails_on_cache_miss_witness:
  "classification envelope_confidential = CONFIDENTIAL
   \<and> map_of (keyCache service0) (dataKeyId envelope_confidential) = None
   \<and> decrypt double 1704067200001 service0 envelope_confidential
       = (Inl Failed_to_decrypt_data, service0)
   \<and> map_of (keyCache service1) (dataKeyId envelope_confidential) = Some key1
   \<and> expiresAt key1 \<le> 1704068100000
   \<and> decrypt double 1704068100000 service1 envelope_confidential
       = (Inl Failed_to_decrypt_data, service1)"
proof -
  have c: "classification envelope_confidential = CONFIDENTIAL" by code_simp
  have absent: "map_of (keyCache service0) (dataKeyId envelope_confidential) = None"
    by code_simp
  have present: "map_of (keyCache service1) (dataKeyId envelope_confidential) = Some key1"
    by code_simp
  have expired: "expiresAt key1 \<le> 1704068100000" by code_simp
  have "decrypt double 1704067200001 service0 envelope_confidential
          = (Inl Failed_to_decrypt_data, service0)"
    using decrypt_fails_on_cache_miss
      [OF disjI1 [OF c] disjI1 [OF absent], where now = 1704067200001 and rt = double]
    by simp
  moreover have "decrypt double 1704068100000 service1 envelope_confidential
          = (Inl Failed_to_decrypt_data, service1)"
    using decrypt_fails_on_cache_miss
      [OF disjI1 [OF c], where s = service1 and now = 1704068100000 and rt = double]
      present expired
    by blast
  ultimately show ?thesis using c absent present expired by blast
qed

text \<open>
  C10 (the \<^verbatim>\<open>authTag\<close> is not verified). For every envelope classified \<open>confidential\<close> or
  \<open>restricted\<close>, \<^verbatim>\<open>decrypt\<close> gives the same outcome for any two values of \<^verbatim>\<open>authTag\<close>; and
  the \<^verbatim>\<open>authTag\<close> that \<^verbatim>\<open>encrypt\<close> writes for these classifications is the constant
  \<^verbatim>\<open>sha256-hmac\<close>.
\<close>

theorem authTag_is_never_read:
  "(classification env = CONFIDENTIAL \<or> classification env = RESTRICTED \<longrightarrow>
      decrypt rt now s (env\<lparr>authTag := a\<rparr>) = decrypt rt now s (env\<lparr>authTag := b\<rparr>))
   \<and> ((cls = CONFIDENTIAL \<or> cls = RESTRICTED)
        \<and> encrypt rt ent s0 P cls = (Inr env', s') \<longrightarrow>
      authTag env' = Some ''sha256-hmac'')"
proof (intro conjI impI)
  assume "classification env = CONFIDENTIAL \<or> classification env = RESTRICTED"
  then show "decrypt rt now s (env\<lparr>authTag := a\<rparr>) = decrypt rt now s (env\<lparr>authTag := b\<rparr>)"
  proof
    assume c: "classification env = CONFIDENTIAL"
    show ?thesis
      by (simp add: decrypt_def decrypt_try_def Let_def c tiers_distinct
          decryptConfidentialData_def)
  next
    assume c: "classification env = RESTRICTED"
    show ?thesis
      by (simp add: decrypt_def decrypt_try_def Let_def c tiers_distinct
          decryptConfidentialData_def decryptRestrictedData_def)
  qed
next
  assume h: "(cls = CONFIDENTIAL \<or> cls = RESTRICTED)
             \<and> encrypt rt ent s0 P cls = (Inr env', s')"
  then have "encrypt rt ent s0 P cls = (Inr env', s')" by simp
  then show "authTag env' = Some ''sha256-hmac''"
  proof (cases rule: encrypt_Inr_cases)
    case (public t)
    with h show ?thesis by (simp add: tiers_distinct)
  next
    case (internal t)
    with h show ?thesis by (simp add: tiers_distinct)
  next
    case (confidential t)
    from encryptConfidentialData_Inr [OF confidential(3)] show ?thesis by auto
  next
    case (restricted t)
    from encryptConfidentialData_Inr [OF restricted(3)] show ?thesis by auto
  qed
qed

theorem authTag_is_never_read_witness:
  "classification envelope_confidential = CONFIDENTIAL
   \<and> CONFIDENTIAL = CONFIDENTIAL
   \<and> encrypt double entropy0 service0 1500 CONFIDENTIAL = (Inr envelope_confidential, service1)
   \<and> authTag envelope_confidential = Some ''sha256-hmac''
   \<and> decrypt double 1704067200001 service1 (envelope_confidential\<lparr>authTag := Some ''forged''\<rparr>)
       = decrypt double 1704067200001 service1 (envelope_confidential\<lparr>authTag := None\<rparr>)
   \<and> decrypt double 1704067200001 service1 (envelope_confidential\<lparr>authTag := None\<rparr>)
       = (Inr 1500, service1)"
proof -
  have c: "classification envelope_confidential = CONFIDENTIAL" by code_simp
  have r: "decrypt double 1704067200001 service1 (envelope_confidential\<lparr>authTag := None\<rparr>)
             = (Inr 1500, service1)"
    by code_simp
  from authTag_is_never_read
    [where env = envelope_confidential and rt = double and now = 1704067200001
       and s = service1 and a = "Some ''forged''" and b = None and cls = CONFIDENTIAL
       and ent = entropy0 and ?s0.0 = service0 and P = "1500::nat"
       and env' = envelope_confidential and s' = service1]
    c r run_confidential
  show ?thesis by blast
qed

end
